theory Spec2Isabelle
  imports Complex_Main "HOL-Library.Word" "HOL-Library.AList"
begin

section \<open>Strings, bytes and text encodings\<close>

text \<open>
  A JavaScript string is a sequence of 16-bit code units, a \<open>Buffer\<close> a sequence of
  bytes, a \<open>number\<close> a real (no arithmetic of the modelled code depends on rounding).
  \<open>js\<close> writes a string literal of the source.
\<close>

type_synonym byte = "8 word"
type_synonym bytes = "byte list"
type_synonym jsstring = "16 word list"
type_synonym number = real

definition js :: "string \<Rightarrow> jsstring" where
  "js s = map (\<lambda>c. of_nat (of_char c)) s"

fun js_startsWith :: "jsstring \<Rightarrow> jsstring \<Rightarrow> bool" where
  "js_startsWith s [] = True"
| "js_startsWith [] (p # ps) = False"
| "js_startsWith (c # cs) (p # ps) = (c = p \<and> js_startsWith cs ps)"

definition js_endsWith :: "jsstring \<Rightarrow> jsstring \<Rightarrow> bool" where
  "js_endsWith s suffix = js_startsWith (rev s) (rev suffix)"

fun js_includes :: "jsstring \<Rightarrow> jsstring \<Rightarrow> bool" where
  "js_includes [] sub = (sub = [])"
| "js_includes (c # cs) sub = (js_startsWith (c # cs) sub \<or> js_includes cs sub)"

subsection \<open>UTF-16 and UTF-8\<close>

text \<open>
  \<open>cipher.update(text, 'utf8')\<close> encodes the string as UTF-8 and
  \<open>buffer.toString('utf8')\<close> decodes it. The encoder reads surrogate pairs as one code
  point and writes U+FFFD for a surrogate that stands alone; the decoder writes U+FFFD for
  every maximal ill-formed byte sequence. Code units and bytes are handled as naturals.
\<close>

definition is_high :: "nat \<Rightarrow> bool" where
  "is_high u = (0xD800 \<le> u \<and> u < 0xDC00)"

definition is_low :: "nat \<Rightarrow> bool" where
  "is_low u = (0xDC00 \<le> u \<and> u < 0xE000)"

definition scalar_of :: "nat \<Rightarrow> nat" where
  "scalar_of u = (if is_high u \<or> is_low u then 0xFFFD else u)"

fun utf16_code_points :: "nat list \<Rightarrow> nat list" where
  "utf16_code_points [] = []"
| "utf16_code_points [u] = [scalar_of u]"
| "utf16_code_points (u # v # vs) =
     (if is_high u \<and> is_low v
      then (0x10000 + (u - 0xD800) * 0x400 + (v - 0xDC00)) # utf16_code_points vs
      else scalar_of u # utf16_code_points (v # vs))"

definition utf16_units :: "nat \<Rightarrow> nat list" where
  "utf16_units c =
     (if c < 0x10000 then [c]
      else [0xD800 + (c - 0x10000) div 0x400, 0xDC00 + (c - 0x10000) mod 0x400])"

definition utf8_units :: "nat \<Rightarrow> nat list" where
  "utf8_units c =
     (if c < 0x80 then [c]
      else if c < 0x800 then [0xC0 + c div 64, 0x80 + c mod 64]
      else if c < 0x10000
        then [0xE0 + c div 64 div 64, 0x80 + c div 64 mod 64, 0x80 + c mod 64]
      else [0xF0 + c div 64 div 64 div 64, 0x80 + c div 64 div 64 mod 64,
            0x80 + c div 64 mod 64, 0x80 + c mod 64])"

definition second_lo :: "nat \<Rightarrow> nat" where
  "second_lo b = (if b = 0xE0 then 0xA0 else if b = 0xF0 then 0x90 else 0x80)"

definition second_hi :: "nat \<Rightarrow> nat" where
  "second_hi b = (if b = 0xED then 0x9F else if b = 0xF4 then 0x8F else 0xBF)"

definition cont :: "nat \<Rightarrow> bool" where
  "cont b = (0x80 \<le> b \<and> b \<le> 0xBF)"

fun utf8_code_points :: "nat list \<Rightarrow> nat list" where
  "utf8_code_points [] = []"
| "utf8_code_points (b # bs) =
     (if b < 0x80 then b # utf8_code_points bs
      else if 0xC2 \<le> b \<and> b \<le> 0xDF then
        (case bs of
           [] \<Rightarrow> [0xFFFD]
         | c # cs \<Rightarrow>
             if cont c then ((b - 0xC0) * 64 + (c - 0x80)) # utf8_code_points cs
             else 0xFFFD # utf8_code_points bs)
      else if 0xE0 \<le> b \<and> b \<le> 0xEF then
        (case bs of
           [] \<Rightarrow> [0xFFFD]
         | c # cs \<Rightarrow>
             if second_lo b \<le> c \<and> c \<le> second_hi b then
               (case cs of
                  [] \<Rightarrow> [0xFFFD]
                | d # ds \<Rightarrow>
                    if cont d
                    then (((b - 0xE0) * 64 + (c - 0x80)) * 64 + (d - 0x80)) # utf8_code_points ds
                    else 0xFFFD # utf8_code_points cs)
             else 0xFFFD # utf8_code_points bs)
      else if 0xF0 \<le> b \<and> b \<le> 0xF4 then
        (case bs of
           [] \<Rightarrow> [0xFFFD]
         | c # cs \<Rightarrow>
             if second_lo b \<le> c \<and> c \<le> second_hi b then
               (case cs of
                  [] \<Rightarrow> [0xFFFD]
                | d # ds \<Rightarrow>
                    if cont d then
                      (case ds of
                         [] \<Rightarrow> [0xFFFD]
                       | e # es \<Rightarrow>
                           if cont e
                           then ((((b - 0xF0) * 64 + (c - 0x80)) * 64 + (d - 0x80)) * 64
                                   + (e - 0x80)) # utf8_code_points es
                           else 0xFFFD # utf8_code_points ds)
                    else 0xFFFD # utf8_code_points cs)
             else 0xFFFD # utf8_code_points bs)
      else 0xFFFD # utf8_code_points bs)"

definition utf8_encode :: "jsstring \<Rightarrow> bytes" where
  "utf8_encode t = map of_nat (concat (map utf8_units (utf16_code_points (map unat t))))"

definition utf8_decode :: "bytes \<Rightarrow> jsstring" where
  "utf8_decode bs = map of_nat (concat (map utf16_units (utf8_code_points (map unat bs))))"

text \<open>\<open>String.prototype.isWellFormed\<close> and \<open>toWellFormed\<close>: no surrogate stands alone.\<close>

fun well_formed_units :: "nat list \<Rightarrow> bool" where
  "well_formed_units [] = True"
| "well_formed_units [u] = (\<not> is_high u \<and> \<not> is_low u)"
| "well_formed_units (u # v # vs) =
     (if is_high u then is_low v \<and> well_formed_units vs
      else \<not> is_low u \<and> well_formed_units (v # vs))"

definition isWellFormed :: "jsstring \<Rightarrow> bool" where
  "isWellFormed t = well_formed_units (map unat t)"

fun toWellFormed_units :: "nat list \<Rightarrow> nat list" where
  "toWellFormed_units [] = []"
| "toWellFormed_units [u] = [scalar_of u]"
| "toWellFormed_units (u # v # vs) =
     (if is_high u \<and> is_low v then u # v # toWellFormed_units vs
      else scalar_of u # toWellFormed_units (v # vs))"

definition toWellFormed :: "jsstring \<Rightarrow> jsstring" where
  "toWellFormed t = map of_nat (toWellFormed_units (map unat t))"

definition scalar :: "nat \<Rightarrow> bool" where
  "scalar c = (c < 0x110000 \<and> \<not> is_high c \<and> \<not> is_low c)"

section \<open>Values, errors and the external libraries\<close>

datatype json =
    JNull
  | JBool bool
  | JNum number
  | JStr jsstring
  | JArr "json list"
  | JObj "(jsstring \<times> json) list"

datatype error = ENOENT | ENOTDIR | EISDIR | DecryptError | SyntaxError | TypeError

text \<open>
  A value read from parsed JSON is \<open>json option\<close>, \<open>None\<close> for \<open>undefined\<close>.
  \<open>truthy\<close> is the test of \<open>if (v)\<close> and \<open>v || w\<close>; \<open>getProperty v k\<close> is \<open>v.k\<close>
  for the keys the code reads (none of them is a property of a string, a number, a
  boolean or an array), a TypeError on \<open>null\<close> and \<open>undefined\<close>.
\<close>

fun truthy :: "json \<Rightarrow> bool" where
  "truthy JNull = False"
| "truthy (JBool b) = b"
| "truthy (JNum n) = (n \<noteq> 0)"
| "truthy (JStr s) = (s \<noteq> [])"
| "truthy (JArr xs) = True"
| "truthy (JObj kvs) = True"

fun getProperty :: "json option \<Rightarrow> jsstring \<Rightarrow> error + json option" where
  "getProperty None k = Inl TypeError"
| "getProperty (Some JNull) k = Inl TypeError"
| "getProperty (Some (JObj kvs)) k = Inr (map_of kvs k)"
| "getProperty (Some v) k = Inr None"

text \<open>\<open>v || null\<close>, with \<open>None\<close> for the result \<open>null\<close>.\<close>

definition or_null :: "json option \<Rightarrow> json option" where
  "or_null v = (case v of None \<Rightarrow> None | Some x \<Rightarrow> if truthy x then Some x else None)"

text \<open>
  The libraries the code calls are parameters of the model: Node's \<open>crypto\<close>
  (\<open>pbkdf2Sync\<close> with digest sha512; \<open>createCipheriv\<close> and \<open>createDecipheriv\<close> with
  algorithm aes-256-gcm, the first returning ciphertext and authentication tag, the second
  \<open>None\<close> where \<open>createDecipheriv\<close>, \<open>setAuthTag\<close> or \<open>final\<close> throws), the base64 codec
  of \<open>Buffer\<close>, \<open>JSON\<close> (\<open>None\<close> for a SyntaxError), \<open>SteamTotp.generateAuthCode\<close> and the
  store's appdetails request (\<open>None\<close> when the request fails, else \<open>response.data[appId]\<close>).
\<close>

record lib =
  pbkdf2_sha512 :: "jsstring \<Rightarrow> bytes \<Rightarrow> nat \<Rightarrow> nat \<Rightarrow> bytes"
  aes_256_gcm_encrypt :: "bytes \<Rightarrow> bytes \<Rightarrow> bytes \<Rightarrow> bytes \<times> bytes"
  aes_256_gcm_decrypt :: "bytes \<Rightarrow> bytes \<Rightarrow> bytes \<Rightarrow> bytes \<Rightarrow> bytes option"
  base64_encode :: "bytes \<Rightarrow> jsstring"
  base64_decode :: "jsstring \<Rightarrow> bytes"
  JSON_parse :: "jsstring \<Rightarrow> json option"
  JSON_stringify :: "json \<Rightarrow> jsstring"
  generateAuthCode :: "jsstring \<Rightarrow> jsstring"
  appdetails :: "number \<Rightarrow> json option option"

text \<open>
  What the code relies on from \<open>crypto\<close> and \<open>Buffer\<close>: base64 decoding inverts encoding,
  the derived key has the requested length, and under a 32-byte key and a 16-byte IV the
  cipher returns a 16-byte tag with which decryption returns the plaintext.
\<close>

definition crypto_contract :: "lib \<Rightarrow> bool" where
  "crypto_contract L =
     ((\<forall>bs. base64_decode L (base64_encode L bs) = bs) \<and>
      (\<forall>pw salt n len. length (pbkdf2_sha512 L pw salt n len) = len) \<and>
      (\<forall>key iv pt. length key = 32 \<longrightarrow> length iv = 16 \<longrightarrow>
         length (snd (aes_256_gcm_encrypt L key iv pt)) = 16 \<and>
         aes_256_gcm_decrypt L key iv (snd (aes_256_gcm_encrypt L key iv pt))
           (fst (aes_256_gcm_encrypt L key iv pt)) = Some pt))"

section \<open>crypto.ts\<close>

definition IV_LENGTH :: nat where "IV_LENGTH = 16"
definition SALT_LENGTH :: nat where "SALT_LENGTH = 64"
definition TAG_LENGTH :: nat where "TAG_LENGTH = 16"
definition KEY_LENGTH :: nat where "KEY_LENGTH = 32"
definition ITERATIONS :: nat where "ITERATIONS = 100000"

text \<open>
  The system's random source is a stream of bytes; \<open>randomBytes n\<close> takes the next \<open>n\<close>
  and leaves the rest, so no byte is handed out twice.
\<close>

type_synonym entropy = "nat \<Rightarrow> byte"

definition randomBytes :: "nat \<Rightarrow> entropy \<Rightarrow> bytes \<times> entropy" where
  "randomBytes n g = (map g [0..<n], \<lambda>i. g (i + n))"

definition subarray :: "bytes \<Rightarrow> nat \<Rightarrow> nat \<Rightarrow> bytes" where
  "subarray buffer start end = take (end - start) (drop start buffer)"

definition encrypt :: "lib \<Rightarrow> entropy \<Rightarrow> jsstring \<Rightarrow> jsstring \<Rightarrow> jsstring \<times> entropy" where
  "encrypt L g text password =
     (let (salt, g1) = randomBytes SALT_LENGTH g;
          key = pbkdf2_sha512 L password salt ITERATIONS KEY_LENGTH;
          (iv, g2) = randomBytes IV_LENGTH g1;
          (encrypted, tag) = aes_256_gcm_encrypt L key iv (utf8_encode text)
      in (base64_encode L (salt @ iv @ tag @ encrypted), g2))"

definition decrypt :: "lib \<Rightarrow> jsstring \<Rightarrow> jsstring \<Rightarrow> error + jsstring" where
  "decrypt L encryptedData password =
     (let buffer = base64_decode L encryptedData;
          salt = subarray buffer 0 SALT_LENGTH;
          iv = subarray buffer SALT_LENGTH (SALT_LENGTH + IV_LENGTH);
          tag = subarray buffer (SALT_LENGTH + IV_LENGTH) (SALT_LENGTH + IV_LENGTH + TAG_LENGTH);
          encrypted = drop (SALT_LENGTH + IV_LENGTH + TAG_LENGTH) buffer;
          key = pbkdf2_sha512 L password salt ITERATIONS KEY_LENGTH
      in case aes_256_gcm_decrypt L key iv tag encrypted of
           None \<Rightarrow> Inl DecryptError
         | Some plain \<Rightarrow> Inr (utf8_decode plain))"

section \<open>The file system and the process state\<close>

text \<open>
  A path is absolute and normalised, and is given as the list of its segments below the
  root. \<open>path.join(dir, rel)\<close> (POSIX) for such a \<open>dir\<close> goes through the segments of
  \<open>rel\<close> between the separators: an empty segment and \<open>.\<close> stay where they are, \<open>..\<close>
  goes up one level and stays at the root, any other segment goes down into it.
\<close>

type_synonym path = "jsstring list"

fun segments :: "jsstring \<Rightarrow> jsstring list" where
  "segments [] = [[]]"
| "segments (c # cs) =
     (if c = 0x2F then [] # segments cs else (c # hd (segments cs)) # tl (segments cs))"

definition enter :: "path \<Rightarrow> jsstring \<Rightarrow> path" where
  "enter p seg =
     (if seg = [] \<or> seg = js ''.'' then p else if seg = js ''..'' then butlast p else p @ [seg])"

definition path_join :: "path \<Rightarrow> jsstring \<Rightarrow> path" where
  "path_join dir rel = foldl enter dir (segments rel)"

text \<open>
  The file system is the list of the entries that exist, each under its path, in the order
  \<open>readdirSync\<close> lists them; a lookup takes the first entry of a path. The name of an
  entry is one segment: not empty, not \<open>.\<close> or \<open>..\<close>, without a separator. The operations
  of \<open>fs\<close> return the error they throw as a value. What is modelled of an entry is what
  the code reads: whether it is a directory, its text and its modification time. The
  modification time of a directory is kept as it is given: that creating or removing an
  entry in a directory advances it is not modelled.
\<close>

datatype node = File (content: jsstring) (mtimeMs: number) | Directory (mtimeMs: number)

type_synonym filesystem = "(path \<times> node) list"

fun isDirectory :: "node \<Rightarrow> bool" where
  "isDirectory (Directory m) = True"
| "isDirectory (File c m) = False"

definition valid_name :: "jsstring \<Rightarrow> bool" where
  "valid_name name = (name \<noteq> [] \<and> name \<noteq> js ''.'' \<and> name \<noteq> js ''..'' \<and> 0x2F \<notin> set name)"

definition existsSync :: "filesystem \<Rightarrow> path \<Rightarrow> bool" where
  "existsSync d p = (map_of d p \<noteq> None)"

definition readdirSync :: "filesystem \<Rightarrow> path \<Rightarrow> error + jsstring list" where
  "readdirSync d p =
     (case map_of d p of
        None \<Rightarrow> Inl ENOENT
      | Some (File c m) \<Rightarrow> Inl ENOTDIR
      | Some (Directory m) \<Rightarrow>
          Inr (filter valid_name
                 (remdups (map (\<lambda>e. last (fst e)) (filter (\<lambda>e. fst e \<noteq> [] \<and> butlast (fst e) = p) d)))))"

definition statSync :: "filesystem \<Rightarrow> path \<Rightarrow> error + node" where
  "statSync d p = (case map_of d p of None \<Rightarrow> Inl ENOENT | Some n \<Rightarrow> Inr n)"

definition readFileSync :: "filesystem \<Rightarrow> path \<Rightarrow> error + jsstring" where
  "readFileSync d p =
     (case map_of d p of
        None \<Rightarrow> Inl ENOENT
      | Some (Directory m) \<Rightarrow> Inl EISDIR
      | Some (File c m) \<Rightarrow> Inr c)"

text \<open>
  \<open>writeFileSync\<close> refuses a path with a NUL character, writes over a file that exists,
  and creates a file only in a directory that exists.
\<close>

definition writeFileSync :: "filesystem \<Rightarrow> path \<Rightarrow> jsstring \<Rightarrow> number \<Rightarrow> error + filesystem" where
  "writeFileSync d p c now =
     (if 0 \<in> set (concat p) then Inl TypeError
      else
        case map_of d p of
          Some (Directory m) \<Rightarrow> Inl EISDIR
        | Some (File c' m) \<Rightarrow> Inr (AList.update p (File c now) d)
        | None \<Rightarrow>
            (case map_of d (butlast p) of
               None \<Rightarrow> Inl ENOENT
             | Some (File c' m) \<Rightarrow> Inl ENOTDIR
             | Some (Directory m) \<Rightarrow> Inr (AList.update p (File c now) d)))"

definition unlinkSync :: "filesystem \<Rightarrow> path \<Rightarrow> error + filesystem" where
  "unlinkSync d p =
     (case map_of d p of
        None \<Rightarrow> Inl ENOENT
      | Some (Directory m) \<Rightarrow> Inl EISDIR
      | Some (File c m) \<Rightarrow> Inr (AList.delete p d))"

text \<open>\<open>fs.rmSync(path, { recursive: true })\<close> removes the entry and all that is below it.\<close>

definition rmSync :: "filesystem \<Rightarrow> path \<Rightarrow> error + filesystem" where
  "rmSync d p =
     (case map_of d p of
        None \<Rightarrow> Inl ENOENT
      | Some n \<Rightarrow> Inr (filter (\<lambda>e. take (length p) (fst e) \<noteq> p) d))"

text \<open>
  A call either returns a value or throws, and in both cases leaves a state behind.
\<close>

datatype ('a, 's) outcome = Return 'a 's | Throw error 's

fun state_of :: "('a, 's) outcome \<Rightarrow> 's" where
  "state_of (Return v s) = s"
| "state_of (Throw e s) = s"

fun returns :: "('a, 's) outcome \<Rightarrow> bool" where
  "returns (Return v s) = True"
| "returns (Throw e s) = False"

datatype guard = GuardNone | GuardMobile | GuardEmail | GuardSecret

datatype persona = Online | Away | Invisible | Offline

datatype selector = AppId number | Custom jsstring

record account =
  username :: jsstring
  password :: jsstring
  sharedSecret :: "jsstring option"
  guardType :: "guard option"
  games :: "selector list"
  status :: persona
  ownerId :: number

text \<open>The test \<open>if (account.sharedSecret)\<close>: the field is present and not the empty string.\<close>

definition has_sharedSecret :: "account \<Rightarrow> bool" where
  "has_sharedSecret a = (case sharedSecret a of None \<Rightarrow> False | Some secret \<Rightarrow> secret \<noteq> [])"

text \<open>
  An entry of the list given to \<open>gamesPlayed\<close>: an object with \<open>game_id\<close> and
  \<open>game_extra_info\<close>, or an AppID. A \<open>SteamUser\<close> is modelled by what the code sets on it.
\<close>

datatype game = NonSteam jsstring jsstring | Steam number

record client =
  personaState :: "persona option"
  playing :: "game list"

text \<open>
  The module state of steamFunctions.ts: the encryption key, the constant \<open>TOKENS_DIR\<close>,
  the three maps, and the timeouts that \<open>scheduleReconnect\<close> has armed and that have
  neither fired nor been cleared, each with the account its callback holds; with it the
  file system and the source of random bytes. Console output is not modelled.
\<close>

record state =
  encryptionKey :: jsstring
  TOKENS_DIR :: path
  disk :: filesystem
  entropy :: entropy
  activeClients :: "jsstring \<rightharpoonup> client"
  accountsToReconnect :: "jsstring \<rightharpoonup> account"
  reconnectTimers :: "jsstring \<rightharpoonup> nat"
  timeouts :: "(nat \<times> account) list"
  nextTimeout :: nat

text \<open>
  The state when the module has been loaded from the directory \<open>dirname\<close>, with the file
  system as it is then.
\<close>

definition initial_state :: "entropy \<Rightarrow> path \<Rightarrow> filesystem \<Rightarrow> state" where
  "initial_state g dirname d =
     \<lparr> encryptionKey = [], TOKENS_DIR = path_join dirname (js ''../data/tokens''), disk = d,
       entropy = g, activeClients = Map.empty, accountsToReconnect = Map.empty,
       reconnectTimers = Map.empty, timeouts = [], nextTimeout = 0 \<rparr>"

definition setEncryptionKey :: "state \<Rightarrow> jsstring \<Rightarrow> state" where
  "setEncryptionKey s key = s\<lparr>encryptionKey := key\<rparr>"

section \<open>steamFunctions.ts: the cache sweep and the token vault\<close>

definition isCacheFile :: "jsstring \<Rightarrow> bool" where
  "isCacheFile file =
     (js_includes file (js ''sentry'') \<or> js_includes file (js ''machine'')
      \<or> js_endsWith file (js ''.bin''))"

definition isOld :: "number \<Rightarrow> node \<Rightarrow> bool" where
  "isOld now stat = (now - mtimeMs stat > 7 * 24 * 60 * 60 * 1000)"

fun cleanCache_loop ::
  "number \<Rightarrow> path \<Rightarrow> jsstring list \<Rightarrow> filesystem \<Rightarrow> nat \<Rightarrow> (nat, filesystem) outcome" where
  "cleanCache_loop now dir [] d cleaned = Return cleaned d"
| "cleanCache_loop now dir (file # files) d cleaned =
     (let filePath = path_join dir file
      in case statSync d filePath of
           Inl e \<Rightarrow> Throw e d
         | Inr stat \<Rightarrow>
             if js_endsWith file (js ''.token'') then cleanCache_loop now dir files d cleaned
             else if isCacheFile file \<or> isOld now stat then
               (case (if isDirectory stat then rmSync d filePath else unlinkSync d filePath) of
                  Inl e \<Rightarrow> cleanCache_loop now dir files d cleaned
                | Inr d' \<Rightarrow> cleanCache_loop now dir files d' (cleaned + 1))
             else cleanCache_loop now dir files d cleaned)"

definition cleanCache :: "number \<Rightarrow> state \<Rightarrow> (unit, state) outcome" where
  "cleanCache now s =
     (if \<not> existsSync (disk s) (TOKENS_DIR s) then Return () s
      else
        case readdirSync (disk s) (TOKENS_DIR s) of
          Inl e \<Rightarrow> Throw e s
        | Inr files \<Rightarrow>
            (case cleanCache_loop now (TOKENS_DIR s) files (disk s) 0 of
               Return cleaned d \<Rightarrow> Return () (s\<lparr>disk := d\<rparr>)
             | Throw e d \<Rightarrow> Throw e (s\<lparr>disk := d\<rparr>)))"

text \<open>The path of an account's record.\<close>

definition tokenPath :: "path \<Rightarrow> jsstring \<Rightarrow> path" where
  "tokenPath dir user = path_join dir (user @ js ''.token'')"

definition saveToken :: "lib \<Rightarrow> number \<Rightarrow> state \<Rightarrow> jsstring \<Rightarrow> jsstring \<Rightarrow> (unit, state) outcome" where
  "saveToken L now s user token =
     (if encryptionKey s = [] then Return () s
      else
        let (encrypted, g) =
              encrypt L (entropy s) (JSON_stringify L (JObj [(js ''refreshToken'', JStr token)]))
                (encryptionKey s)
        in case writeFileSync (disk s) (tokenPath (TOKENS_DIR s) user) encrypted now of
             Inl e \<Rightarrow> Throw e (s\<lparr>entropy := g\<rparr>)
           | Inr d \<Rightarrow> Return () (s\<lparr>entropy := g, disk := d\<rparr>))"

text \<open>The \<open>try\<close> block of \<open>loadToken\<close>.\<close>

definition readToken :: "lib \<Rightarrow> state \<Rightarrow> jsstring \<Rightarrow> error + json option" where
  "readToken L s user =
     (case readFileSync (disk s) (tokenPath (TOKENS_DIR s) user) of
        Inl e \<Rightarrow> Inl e
      | Inr encrypted \<Rightarrow>
          (case decrypt L encrypted (encryptionKey s) of
             Inl e \<Rightarrow> Inl e
           | Inr decrypted \<Rightarrow>
               (case JSON_parse L decrypted of
                  None \<Rightarrow> Inl SyntaxError
                | Some data \<Rightarrow>
                    (case getProperty (Some data) (js ''refreshToken'') of
                       Inl e \<Rightarrow> Inl e
                     | Inr v \<Rightarrow> Inr (or_null v)))))"

definition loadToken :: "lib \<Rightarrow> state \<Rightarrow> jsstring \<Rightarrow> (json option, state) outcome" where
  "loadToken L s user =
     (if encryptionKey s = [] then Return None s
      else if \<not> existsSync (disk s) (tokenPath (TOKENS_DIR s) user) then Return None s
      else
        case readToken L s user of
          Inr token \<Rightarrow> Return token s
        | Inl e \<Rightarrow>
            (case unlinkSync (disk s) (tokenPath (TOKENS_DIR s) user) of
               Inl e' \<Rightarrow> Throw e' s
             | Inr d \<Rightarrow> Return None (s\<lparr>disk := d\<rparr>)))"

definition deleteToken :: "state \<Rightarrow> jsstring \<Rightarrow> (unit, state) outcome" where
  "deleteToken s user =
     (if existsSync (disk s) (tokenPath (TOKENS_DIR s) user) then
        (case unlinkSync (disk s) (tokenPath (TOKENS_DIR s) user) of
           Inl e \<Rightarrow> Throw e s
         | Inr d \<Rightarrow> Return () (s\<lparr>disk := d\<rparr>))
      else Return () s)"

definition hasToken :: "lib \<Rightarrow> state \<Rightarrow> jsstring \<Rightarrow> (bool, state) outcome" where
  "hasToken L s user =
     (case loadToken L s user of
        Return token s' \<Rightarrow> Return (token \<noteq> None) s'
      | Throw e s' \<Rightarrow> Throw e s')"

text \<open>
  The entry at an account's token path. The vault's own operations create files only; where
  the entry is a directory, \<open>unlinkSync\<close> and \<open>writeFileSync\<close> throw.
\<close>

definition token_entry :: "state \<Rightarrow> jsstring \<Rightarrow> node option" where
  "token_entry s user = map_of (disk s) (tokenPath (TOKENS_DIR s) user)"

definition not_a_directory :: "state \<Rightarrow> jsstring \<Rightarrow> bool" where
  "not_a_directory s user =
     (case token_entry s user of Some (Directory m) \<Rightarrow> False | _ \<Rightarrow> True)"

text \<open>
  An account has a saved token: a key is set, and the entry at the account's token path is
  a file that decrypts under the key to a JSON text whose \<open>refreshToken\<close> is truthy. This
  is read from the file system alone, and is what \<open>loadToken\<close> is compared with.
\<close>

definition has_saved_token :: "lib \<Rightarrow> state \<Rightarrow> jsstring \<Rightarrow> bool" where
  "has_saved_token L s user =
     (encryptionKey s \<noteq> [] \<and>
      (case token_entry s user of
         Some (File encrypted m) \<Rightarrow>
           (case decrypt L encrypted (encryptionKey s) of
              Inr decrypted \<Rightarrow>
                (case JSON_parse L decrypted of
                   Some data \<Rightarrow>
                     (case getProperty (Some data) (js ''refreshToken'') of
                        Inr (Some v) \<Rightarrow> truthy v
                      | _ \<Rightarrow> False)
                 | None \<Rightarrow> False)
            | Inl e \<Rightarrow> False)
       | _ \<Rightarrow> False))"

fun value_of :: "('a, 's) outcome \<Rightarrow> 'a option" where
  "value_of (Return v s) = Some v"
| "value_of (Throw e s) = None"

section \<open>steamFunctions.ts: the reconnect scheduler\<close>

text \<open>
  \<open>setTimeout\<close> hands out the next timer and arms it; \<open>clearTimeout\<close> disarms it. The
  callback of a timer is determined by the account it was created for.
\<close>

definition setTimeout :: "state \<Rightarrow> account \<Rightarrow> nat \<times> state" where
  "setTimeout s a =
     (nextTimeout s, s\<lparr>timeouts := timeouts s @ [(nextTimeout s, a)], nextTimeout := nextTimeout s + 1\<rparr>)"

definition clearTimeout :: "state \<Rightarrow> nat \<Rightarrow> state" where
  "clearTimeout s timer = s\<lparr>timeouts := filter (\<lambda>t. fst t \<noteq> timer) (timeouts s)\<rparr>"

definition canAutoReconnect :: "bool \<Rightarrow> account \<Rightarrow> bool" where
  "canAutoReconnect tokenExists a =
     (tokenExists \<or> has_sharedSecret a \<or> guardType a = Some GuardNone)"

definition scheduleReconnect :: "lib \<Rightarrow> state \<Rightarrow> account \<Rightarrow> (unit, state) outcome" where
  "scheduleReconnect L s a =
     (if reconnectTimers s (username a) \<noteq> None then Return () s
      else
        case hasToken L s (username a) of
          Throw e s1 \<Rightarrow> Throw e s1
        | Return tokenExists s1 \<Rightarrow>
            if \<not> canAutoReconnect tokenExists a then Return () s1
            else
              let s2 = s1\<lparr>accountsToReconnect := (accountsToReconnect s1)(username a \<mapsto> a)\<rparr>;
                  (timer, s3) = setTimeout s2 a
              in Return () (s3\<lparr>reconnectTimers := (reconnectTimers s3)(username a \<mapsto> timer)\<rparr>))"

definition cancelReconnect :: "state \<Rightarrow> jsstring \<Rightarrow> state" where
  "cancelReconnect s user =
     (let s1 = (case reconnectTimers s user of
                  None \<Rightarrow> s
                | Some timer \<Rightarrow>
                    (clearTimeout s timer)\<lparr>reconnectTimers := (reconnectTimers s)(user := None)\<rparr>)
      in s1\<lparr>accountsToReconnect := (accountsToReconnect s1)(user := None)\<rparr>)"

text \<open>The armed timers whose callback reconnects the given account name.\<close>

definition armed :: "state \<Rightarrow> jsstring \<Rightarrow> (nat \<times> account) list" where
  "armed s user = filter (\<lambda>t. username (snd t) = user) (timeouts s)"

text \<open>
  When a timer fires it is no longer armed, and its callback begins by deleting the name of
  its account from \<open>reconnectTimers\<close> and \<open>accountsToReconnect\<close>; the login that
  follows is not part of this step.
\<close>

definition timer_fires :: "state \<Rightarrow> nat \<Rightarrow> account \<Rightarrow> state" where
  "timer_fires s timer a =
     s\<lparr>timeouts := filter (\<lambda>t. fst t \<noteq> timer) (timeouts s),
       reconnectTimers := (reconnectTimers s)(username a := None),
       accountsToReconnect := (accountsToReconnect s)(username a := None)\<rparr>"

definition enableAutoReconnect :: "state \<Rightarrow> account \<Rightarrow> state" where
  "enableAutoReconnect s a = s\<lparr>accountsToReconnect := (accountsToReconnect s)(username a \<mapsto> a)\<rparr>"

text \<open>
  What the scheduler keeps between calls: an account name has an armed timer exactly when
  \<open>reconnectTimers\<close> has an entry for it, and then that timer only, with a
  pending-reconnect record beside it. Timers are told apart by their handles, which are
  handed out in increasing order.
\<close>

definition timers_registered :: "state \<Rightarrow> bool" where
  "timers_registered s =
     ((\<forall>user. map fst (armed s user) =
              (case reconnectTimers s user of None \<Rightarrow> [] | Some timer \<Rightarrow> [timer])) \<and>
      (\<forall>user. reconnectTimers s user \<noteq> None \<longrightarrow> accountsToReconnect s user \<noteq> None) \<and>
      distinct (map fst (timeouts s)) \<and>
      list_all (\<lambda>t. fst t < nextTimeout s) (timeouts s))"

text \<open>\<open>hasToken\<close> returns true: the account has a saved token.\<close>

definition tokenExists :: "lib \<Rightarrow> state \<Rightarrow> jsstring \<Rightarrow> bool" where
  "tokenExists L s user = (value_of (hasToken L s user) = Some True)"

section \<open>steamFunctions.ts: login\<close>

record logOnOptions =
  rememberPassword :: bool
  machineName :: jsstring
  opt_refreshToken :: "json option"
  opt_accountName :: "jsstring option"
  opt_password :: "jsstring option"
  opt_twoFactorCode :: "jsstring option"

definition initial_options :: logOnOptions where
  "initial_options =
     \<lparr> rememberPassword = True, machineName = js ''t.me/sensejke'', opt_refreshToken = None,
       opt_accountName = None, opt_password = None, opt_twoFactorCode = None \<rparr>"

text \<open>
  \<open>login\<close> up to \<open>steamUser.logOn(logOnOptions)\<close>: the value returned is the argument of
  \<open>logOn\<close>.
\<close>

definition login_logOn :: "lib \<Rightarrow> state \<Rightarrow> account \<Rightarrow> (logOnOptions, state) outcome" where
  "login_logOn L s a =
     (let s1 = cancelReconnect s (username a);
          s2 = (case activeClients s1 (username a) of
                  None \<Rightarrow> s1
                | Some existing \<Rightarrow> s1\<lparr>activeClients := (activeClients s1)(username a := None)\<rparr>)
      in case loadToken L s2 (username a) of
           Throw e s3 \<Rightarrow> Throw e s3
         | Return savedToken s3 \<Rightarrow>
             if (case savedToken of None \<Rightarrow> False | Some token \<Rightarrow> truthy token)
             then Return (initial_options\<lparr>opt_refreshToken := savedToken\<rparr>) s3
             else
               Return
                 (initial_options
                    \<lparr>opt_accountName := Some (username a),
                     opt_password := Some (password a),
                     opt_twoFactorCode :=
                       (case sharedSecret a of
                          None \<Rightarrow> None
                        | Some secret \<Rightarrow>
                            if secret \<noteq> [] then Some (generateAuthCode L secret) else None)\<rparr>)
                 s3)"

text \<open>
  One call of \<open>login\<close> after \<open>logOn\<close>: its account, whether the 30 second timeout is
  armed, whether the handlers are attached, and what the promise was resolved with. A
  promise keeps its first resolution.
\<close>

datatype login_result = Success | Failure jsstring

record attempt =
  attempt_account :: account
  timeoutArmed :: bool
  listening :: bool
  resolution :: "login_result option"

definition resolve :: "login_result \<Rightarrow> attempt \<Rightarrow> attempt" where
  "resolve r att = (case resolution att of None \<Rightarrow> att\<lparr>resolution := Some r\<rparr> | Some r' \<Rightarrow> att)"

definition credential_invalid :: "jsstring \<Rightarrow> bool" where
  "credential_invalid message =
     (js_includes message (js ''InvalidPassword'') \<or> js_includes message (js ''AccessDenied'')
      \<or> js_includes message (js ''Expired''))"

definition transient :: "jsstring \<Rightarrow> bool" where
  "transient message =
     (js_includes message (js ''LoggedInElsewhere'')
      \<or> js_includes message (js ''LogonSessionReplaced'')
      \<or> js_includes message (js ''RateLimitExceeded''))"

text \<open>The handler of the \<open>error\<close> event.\<close>

definition on_error :: "lib \<Rightarrow> state \<Rightarrow> attempt \<Rightarrow> jsstring \<Rightarrow> (attempt, state) outcome" where
  "on_error L s att message =
     (let a = attempt_account att;
          att1 = att\<lparr>timeoutArmed := False\<rparr>;
          s1 = s\<lparr>activeClients := (activeClients s)(username a := None)\<rparr>
      in case (if credential_invalid message then deleteToken s1 (username a) else Return () s1) of
           Throw e s2 \<Rightarrow> Throw e s2
         | Return u s2 \<Rightarrow>
             (let att2 = att1\<lparr>listening := False\<rparr>
              in (case (if transient message then scheduleReconnect L s2 a else Return () s2) of
                    Throw e s3 \<Rightarrow> Throw e s3
                  | Return u' s3 \<Rightarrow> Return (resolve (Failure message) att2) s3)))"

section \<open>steamFunctions.ts: activity selection\<close>

definition unknown :: "json option" where
  "unknown = Some (JStr (js ''Unknown''))"

definition getGameName :: "lib \<Rightarrow> number \<Rightarrow> json option" where
  "getGameName L appId =
     (case appdetails L appId of
        None \<Rightarrow> unknown
      | Some entry \<Rightarrow>
          (case getProperty entry (js ''success'') of
             Inl e \<Rightarrow> unknown
           | Inr success \<Rightarrow>
               if (case success of None \<Rightarrow> False | Some v \<Rightarrow> truthy v) then
                 (case getProperty entry (js ''data'') of
                    Inl e \<Rightarrow> unknown
                  | Inr d \<Rightarrow>
                      (case getProperty d (js ''name'') of Inl e \<Rightarrow> unknown | Inr name \<Rightarrow> name))
               else unknown))"

fun isString :: "selector \<Rightarrow> bool" where
  "isString (Custom s) = True"
| "isString (AppId n) = False"

fun numbers :: "selector list \<Rightarrow> number list" where
  "numbers [] = []"
| "numbers (AppId n # gs) = n # numbers gs"
| "numbers (Custom s # gs) = numbers gs"

text \<open>
  The loop over \<open>appIds\<close>: each AppID is pushed, then its name is looked up for the log
  line; the names are kept as the second component.
\<close>

fun pushAppIds :: "lib \<Rightarrow> number list \<Rightarrow> game list \<times> json option list \<Rightarrow> game list \<times> json option list" where
  "pushAppIds L [] acc = acc"
| "pushAppIds L (appId # appIds) (gamesToPlay, names) =
     pushAppIds L appIds (gamesToPlay @ [Steam appId], names @ [getGameName L appId])"

definition gamesToPlay :: "lib \<Rightarrow> selector list \<Rightarrow> game list \<times> json option list" where
  "gamesToPlay L gs =
     (let customGame = find isString gs;
          appIds = numbers gs;
          start = (case customGame of
                     Some (Custom label) \<Rightarrow>
                       if label \<noteq> [] then [NonSteam (js ''15190414816125648896'') label] else []
                   | _ \<Rightarrow> [])
      in pushAppIds L appIds (start, []))"

definition playGames :: "lib \<Rightarrow> client \<Rightarrow> account \<Rightarrow> client" where
  "playGames L steamUser a = steamUser\<lparr>playing := fst (gamesToPlay L (games a))\<rparr>"

definition updateGames :: "lib \<Rightarrow> state \<Rightarrow> jsstring \<Rightarrow> selector list \<Rightarrow> bool \<times> state" where
  "updateGames L s user gs =
     (case activeClients s user of
        None \<Rightarrow> (False, s)
      | Some client \<Rightarrow>
          (True,
           s\<lparr>activeClients :=
               (activeClients s)(user \<mapsto> client\<lparr>playing := fst (gamesToPlay L gs)\<rparr>)\<rparr>))"

section \<open>storage.ts\<close>

text \<open>A \<open>SecureStorage\<close> with its key, and the file \<open>DATA_FILE\<close> if it exists.\<close>

record storage =
  storageKey :: jsstring
  dataFile :: "node option"

definition readDataFile :: "lib \<Rightarrow> storage \<Rightarrow> node \<Rightarrow> error + json" where
  "readDataFile L st n =
     (case n of
        Directory m \<Rightarrow> Inl EISDIR
      | File encrypted m \<Rightarrow>
          (case decrypt L encrypted (storageKey st) of
             Inl e \<Rightarrow> Inl e
           | Inr decrypted \<Rightarrow>
               (case JSON_parse L decrypted of None \<Rightarrow> Inl SyntaxError | Some v \<Rightarrow> Inr v)))"

definition loadAccounts :: "lib \<Rightarrow> storage \<Rightarrow> (json, storage) outcome" where
  "loadAccounts L st =
     (case dataFile st of
        None \<Rightarrow> Return (JArr []) st
      | Some n \<Rightarrow>
          (case readDataFile L st n of
             Inr accounts \<Rightarrow> Return accounts st
           | Inl e \<Rightarrow> Return (JArr []) st))"

section \<open>A library instance for the examples\<close>

text \<open>
  A stand-in for the libraries that meets \<open>crypto_contract\<close>: key derivation pads or cuts
  the password to the requested length, the cipher leaves the text as it is and takes the
  first 16 bytes of the key as tag, the codec writes one code unit per byte, and the only
  JSON texts are the non-empty strings, each the object holding it as \<open>refreshToken\<close>.
\<close>

definition example_lib :: lib where
  "example_lib =
     \<lparr> pbkdf2_sha512 = (\<lambda>pw salt n len. take len (utf8_encode pw @ replicate len 0)),
       aes_256_gcm_encrypt = (\<lambda>key iv plain. (plain, take 16 (key @ replicate 16 0))),
       aes_256_gcm_decrypt =
         (\<lambda>key iv tag encrypted.
            if tag = take 16 (key @ replicate 16 0) then Some encrypted else None),
       base64_encode = map ucast,
       base64_decode = map ucast,
       JSON_parse = (\<lambda>t. if t = [] then None else Some (JObj [(js ''refreshToken'', JStr t)])),
       JSON_stringify =
         (\<lambda>v. case getProperty (Some v) (js ''refreshToken'') of
                 Inr (Some (JStr t)) \<Rightarrow> t
               | _ \<Rightarrow> []),
       generateAuthCode = (\<lambda>secret. js ''00000''),
       appdetails = (\<lambda>appId. None) \<rparr>"

definition example_account :: "jsstring \<Rightarrow> jsstring option \<Rightarrow> guard \<Rightarrow> account" where
  "example_account user secret g =
     \<lparr> username = user, password = js ''pw1'', sharedSecret = secret, guardType = Some g,
       games = [AppId 730], status = Online, ownerId = 1 \<rparr>"

text \<open>
  A file system for the examples, with the module in \<open>/app/dist\<close>: in the token directory
  \<open>/app/data/tokens\<close> a token record, a sentry file, a file that is neither old nor a
  cache file, and an old directory.
\<close>

definition example_disk :: filesystem where
  "example_disk =
     [([], Directory 0),
      ([js ''app''], Directory 0),
      ([js ''app'', js ''data''], Directory 0),
      ([js ''app'', js ''data'', js ''tokens''], Directory 0),
      ([js ''app'', js ''data'', js ''tokens'', js ''alice.token''], File (js ''AAAA'') 0),
      ([js ''app'', js ''data'', js ''tokens'', js ''sentry.alice.bin''], File [] 1700000000000),
      ([js ''app'', js ''data'', js ''tokens'', js ''notes.txt''], File [] 1700000000000),
      ([js ''app'', js ''data'', js ''tokens'', js ''old.token.bak''], Directory 0)]"

definition sweep_example :: state where
  "sweep_example = initial_state (\<lambda>i. 0) [js ''app'', js ''dist''] example_disk"

text \<open>The same file system with a key set; the record of alice is not a ciphertext.\<close>

definition keyed_example :: state where
  "keyed_example = setEncryptionKey sweep_example (js ''0123456789abcdef'')"

definition stored_example :: storage where
  "stored_example = \<lparr> storageKey = js ''0123456789abcdef'', dataFile = Some (File (js ''AAAA'') 0) \<rparr>"

text \<open>
  Two accounts without a saved token: bob has no Steam Guard, dave confirms logins on his
  phone and has given no shared secret.
\<close>

definition bob :: account where
  "bob = example_account (js ''bob'') None GuardNone"

definition dave :: account where
  "dave = example_account (js ''dave'') None GuardMobile"

text \<open>
  alice has a shared secret; in \<open>saved_example\<close> the vault has saved a refresh token for
  her under the key.
\<close>

definition alice :: account where
  "alice = example_account (js ''alice'') (Some (js ''c2VjcmV0'')) GuardSecret"

definition saved_example :: state where
  "saved_example =
     state_of (saveToken example_lib 1700000000000 keyed_example (js ''alice'') (js ''refresh-token''))"

text \<open>
  The same account as it would be without the shared secret, confirming logins on a phone:
  the saved token is all that makes it eligible for an unattended reconnect.
\<close>

definition alice_mobile :: account where
  "alice_mobile = example_account (js ''alice'') None GuardMobile"

text \<open>Login attempts of bob and of dave that have not been resolved.\<close>

definition bob_attempt :: attempt where
  "bob_attempt = \<lparr> attempt_account = bob, timeoutArmed = True, listening = True, resolution = None \<rparr>"

definition dave_attempt :: attempt where
  "dave_attempt = \<lparr> attempt_account = dave, timeoutArmed = True, listening = True, resolution = None \<rparr>"

section \<open>Properties of the text encodings\<close>

lemma dec1: "b < 0x80 \<Longrightarrow> utf8_code_points (b # rest) = b # utf8_code_points rest"
  by simp

lemma dec2:
  "0xC2 \<le> b \<Longrightarrow> b \<le> 0xDF \<Longrightarrow> cont c \<Longrightarrow>
   utf8_code_points (b # c # rest) = ((b - 0xC0) * 64 + (c - 0x80)) # utf8_code_points rest"
  by simp

lemma dec3:
  "0xE0 \<le> b \<Longrightarrow> b \<le> 0xEF \<Longrightarrow> second_lo b \<le> c \<Longrightarrow> c \<le> second_hi b \<Longrightarrow> cont d \<Longrightarrow>
   utf8_code_points (b # c # d # rest) =
     (((b - 0xE0) * 64 + (c - 0x80)) * 64 + (d - 0x80)) # utf8_code_points rest"
  by simp

lemma dec4:
  "0xF0 \<le> b \<Longrightarrow> b \<le> 0xF4 \<Longrightarrow> second_lo b \<le> c \<Longrightarrow> c \<le> second_hi b \<Longrightarrow> cont d \<Longrightarrow>
   cont e \<Longrightarrow>
   utf8_code_points (b # c # d # e # rest) =
     ((((b - 0xF0) * 64 + (c - 0x80)) * 64 + (d - 0x80)) * 64 + (e - 0x80))
       # utf8_code_points rest"
  by simp

lemma cont_mod: "cont (0x80 + n mod 64)"
  by (simp add: cont_def)

lemma div64_less: "n < 64 * k \<Longrightarrow> n div 64 < (k::nat)"
  by arith

lemma div64_ge: "64 * k \<le> n \<Longrightarrow> k \<le> n div (64::nat)"
  by arith

lemma mod64_window:
  "64 * k \<le> n \<Longrightarrow> n < 64 * k + j \<Longrightarrow> j \<le> 64 \<Longrightarrow> n mod 64 < (j::nat)"
proof -
  assume a: "64 * k \<le> n" "n < 64 * k + j" "j \<le> 64"
  then have "n div 64 = k" by (intro div_nat_eqI) simp_all
  then have "n mod 64 = n - 64 * k" by (metis minus_mult_div_eq_mod)
  with a show ?thesis by arith
qed

lemma two_byte_lead:
  "0x80 \<le> c \<Longrightarrow> c < 0x800 \<Longrightarrow> 0xC2 \<le> 0xC0 + c div 64 \<and> 0xC0 + c div 64 \<le> (0xDF::nat)"
  using div64_less [of c 32] div64_ge [of 2 c] by simp

lemma two_byte_value: "(0xC0 + c div 64 - 0xC0) * 64 + (0x80 + c mod 64 - 0x80) = (c::nat)"
  by simp

lemma three_byte_lead:
  "c < 0x10000 \<Longrightarrow> 0xE0 \<le> 0xE0 + c div 64 div 64 \<and> 0xE0 + c div 64 div 64 \<le> (0xEF::nat)"
  using div64_less [of c 1024] div64_less [of "c div 64" 16] by simp

lemma three_byte_lo:
  assumes "0x800 \<le> c" "c < 0x10000"
  shows "second_lo (0xE0 + c div 64 div 64) \<le> 0x80 + c div 64 mod 64"
proof (cases "c div 64 div 64 = 0")
  case True
  then have "c div 64 < 64" by arith
  moreover from assms have "32 \<le> c div 64" using div64_ge [of 32 c] by simp
  ultimately have "32 \<le> c div 64 mod 64" by simp
  with True show ?thesis by (simp add: second_lo_def)
next
  case False
  moreover from assms have "c div 64 div 64 < 16"
    using div64_less [of c 1024] div64_less [of "c div 64" 16] by simp
  ultimately show ?thesis by (simp add: second_lo_def)
qed

lemma three_byte_hi:
  assumes "c < 0x10000" "\<not> is_high c" "\<not> is_low c"
  shows "0x80 + c div 64 mod 64 \<le> second_hi (0xE0 + c div 64 div 64)"
proof (cases "c div 64 div 64 = 13")
  case True
  then have q: "832 \<le> c div 64" "c div 64 < 896" by arith+
  then have "53248 \<le> c" "c < 57344" by arith+
  with assms have "c < 55296" unfolding is_high_def is_low_def by arith
  then have "c div 64 < 864" using div64_less [of c 864] by simp
  with q have "c div 64 mod 64 < 32" using mod64_window [of 13 "c div 64" 32] by simp
  with True show ?thesis by (simp add: second_hi_def)
next
  case False
  have "c div 64 mod 64 < 64" by simp
  moreover from assms(1) have "c div 64 div 64 < 16"
    using div64_less [of c 1024] div64_less [of "c div 64" 16] by simp
  ultimately show ?thesis using False by (simp add: second_hi_def)
qed

lemma three_byte_value:
  "((0xE0 + c div 64 div 64 - 0xE0) * 64 + (0x80 + c div 64 mod 64 - 0x80)) * 64
     + (0x80 + c mod 64 - 0x80) = (c::nat)"
  by simp

lemma four_byte_quotients:
  assumes "0x10000 \<le> (c::nat)" "c < 0x110000"
  shows "16 \<le> c div 64 div 64 \<and> c div 64 div 64 < 272 \<and> c div 64 div 64 div 64 < 5"
proof -
  have 1: "1024 \<le> c div 64" using assms div64_ge [of 1024 c] by simp
  have 2: "c div 64 < 17408" using assms div64_less [of c 17408] by simp
  have 3: "16 \<le> c div 64 div 64" using 1 div64_ge [of 16 "c div 64"] by simp
  have 4: "c div 64 div 64 < 272" using 2 div64_less [of "c div 64" 272] by simp
  have "c div 64 div 64 div 64 < 5" using 4 div64_less [of "c div 64 div 64" 5] by simp
  with 3 4 show ?thesis by simp
qed

lemma four_byte_lead:
  "0x10000 \<le> c \<Longrightarrow> c < 0x110000 \<Longrightarrow>
   0xF0 \<le> 0xF0 + c div 64 div 64 div 64 \<and> 0xF0 + c div 64 div 64 div 64 \<le> (0xF4::nat)"
  using four_byte_quotients [of c] by simp

lemma four_byte_lo:
  assumes "0x10000 \<le> c" "c < 0x110000"
  shows "second_lo (0xF0 + c div 64 div 64 div 64) \<le> 0x80 + c div 64 div 64 mod 64"
proof (cases "c div 64 div 64 div 64 = 0")
  case True
  then have "c div 64 div 64 < 64" by arith
  with four_byte_quotients [OF assms] have "16 \<le> c div 64 div 64 mod 64" by simp
  with True show ?thesis by (simp add: second_lo_def)
next
  case False
  then show ?thesis by (simp add: second_lo_def)
qed

lemma four_byte_hi:
  assumes "0x10000 \<le> c" "c < 0x110000"
  shows "0x80 + c div 64 div 64 mod 64 \<le> second_hi (0xF0 + c div 64 div 64 div 64)"
proof (cases "c div 64 div 64 div 64 = 4")
  case True
  then have "256 \<le> c div 64 div 64" by arith
  with four_byte_quotients [OF assms] have "c div 64 div 64 mod 64 < 16"
    using mod64_window [of 4 "c div 64 div 64" 16] by simp
  with True show ?thesis by (simp add: second_hi_def)
next
  case False
  have "c div 64 div 64 mod 64 < 64" by simp
  then show ?thesis using False by (simp add: second_hi_def)
qed

lemma four_byte_value:
  "(((0xF0 + c div 64 div 64 div 64 - 0xF0) * 64 + (0x80 + c div 64 div 64 mod 64 - 0x80)) * 64
      + (0x80 + c div 64 mod 64 - 0x80)) * 64 + (0x80 + c mod 64 - 0x80) = (c::nat)"
  by simp

lemma utf8_units_decode:
  assumes "scalar c"
  shows "utf8_code_points (utf8_units c @ rest) = c # utf8_code_points rest"
proof -
  consider "c < 0x80" | "0x80 \<le> c" "c < 0x800" | "0x800 \<le> c" "c < 0x10000"
    | "0x10000 \<le> c" "c < 0x110000"
    using assms unfolding scalar_def by linarith
  then show ?thesis
  proof cases
    case 1
    then show ?thesis by (simp add: utf8_units_def del: utf8_code_points.simps add: dec1)
  next
    case 2
    have "utf8_code_points ((0xC0 + c div 64) # (0x80 + c mod 64) # rest) =
            ((0xC0 + c div 64 - 0xC0) * 64 + (0x80 + c mod 64 - 0x80)) # utf8_code_points rest"
      using two_byte_lead [OF 2] by (intro dec2 cont_mod; simp)
    with 2 show ?thesis by (simp add: utf8_units_def two_byte_value del: utf8_code_points.simps)
  next
    case 3
    have nh: "\<not> is_high c" "\<not> is_low c" using assms by (simp_all add: scalar_def)
    have "utf8_code_points
            ((0xE0 + c div 64 div 64) # (0x80 + c div 64 mod 64) # (0x80 + c mod 64) # rest) =
          (((0xE0 + c div 64 div 64 - 0xE0) * 64 + (0x80 + c div 64 mod 64 - 0x80)) * 64
             + (0x80 + c mod 64 - 0x80)) # utf8_code_points rest"
      using three_byte_lead [OF 3(2)] three_byte_lo [OF 3] three_byte_hi [OF 3(2) nh]
      by (intro dec3 cont_mod; simp)
    with 3 show ?thesis by (simp add: utf8_units_def three_byte_value del: utf8_code_points.simps)
  next
    case 4
    have "utf8_code_points
            ((0xF0 + c div 64 div 64 div 64) # (0x80 + c div 64 div 64 mod 64)
               # (0x80 + c div 64 mod 64) # (0x80 + c mod 64) # rest) =
          ((((0xF0 + c div 64 div 64 div 64 - 0xF0) * 64
               + (0x80 + c div 64 div 64 mod 64 - 0x80)) * 64
             + (0x80 + c div 64 mod 64 - 0x80)) * 64 + (0x80 + c mod 64 - 0x80))
           # utf8_code_points rest"
      using four_byte_lead [OF 4] four_byte_lo [OF 4] four_byte_hi [OF 4]
      by (intro dec4 cont_mod; simp)
    with 4 show ?thesis by (simp add: utf8_units_def four_byte_value del: utf8_code_points.simps)
  qed
qed

lemma utf8_code_points_units:
  "list_all scalar cs \<Longrightarrow> utf8_code_points (concat (map utf8_units cs)) = cs"
  by (induction cs) (simp_all add: utf8_units_decode del: utf8_code_points.simps(2))

lemma scalar_scalar_of: "u < 0x10000 \<Longrightarrow> scalar (scalar_of u)"
  by (simp add: scalar_def scalar_of_def is_high_def is_low_def)

lemma scalar_of_units: "u < 0x10000 \<Longrightarrow> utf16_units (scalar_of u) = [scalar_of u]"
  by (simp add: utf16_units_def scalar_of_def)

lemma pair_scalar:
  "is_high u \<Longrightarrow> is_low v \<Longrightarrow> scalar (0x10000 + (u - 0xD800) * 0x400 + (v - 0xDC00))"
  unfolding scalar_def is_high_def is_low_def by simp arith

lemma pair_units:
  assumes "is_high u" "is_low v"
  shows "utf16_units (0x10000 + (u - 0xD800) * 0x400 + (v - 0xDC00)) = [u, v]"
proof -
  have v: "v - 0xDC00 < 1024" "0xDC00 \<le> v" and u: "0xD800 \<le> u"
    using assms unfolding is_high_def is_low_def by arith+
  from v(1) have "((u - 0xD800) * 1024 + (v - 0xDC00)) div 1024 = u - 0xD800"
    and "((u - 0xD800) * 1024 + (v - 0xDC00)) mod 1024 = v - 0xDC00"
    by simp_all
  with u v(2) show ?thesis by (simp add: utf16_units_def)
qed

lemma utf16_code_points_scalar:
  "list_all (\<lambda>u. u < 0x10000) us \<Longrightarrow> list_all scalar (utf16_code_points us)"
  by (induction us rule: utf16_code_points.induct)
     (simp_all add: scalar_scalar_of pair_scalar)

lemma utf16_units_code_points:
  "list_all (\<lambda>u. u < 0x10000) us \<Longrightarrow>
   concat (map utf16_units (utf16_code_points us)) = toWellFormed_units us"
  by (induction us rule: utf16_code_points.induct)
     (simp_all add: scalar_of_units pair_units)

lemma toWellFormed_units_id: "well_formed_units us \<Longrightarrow> toWellFormed_units us = us"
  by (induction us rule: well_formed_units.induct)
     (auto simp: scalar_of_def split: if_splits)

lemma toWellFormed_units_fixed: "toWellFormed_units us = us \<Longrightarrow> well_formed_units us"
  by (induction us rule: well_formed_units.induct)
     (auto simp: scalar_of_def is_high_def is_low_def split: if_splits)

lemma cont_byte: "0x80 + n mod 64 < (256::nat)"
proof -
  have "n mod 64 < 64" by simp
  then show ?thesis by linarith
qed

lemma utf8_units_bytes:
  assumes "c < 0x110000"
  shows "list_all (\<lambda>b. b < 256) (utf8_units c)"
proof -
  consider "c < 0x80" | "0x80 \<le> c" "c < 0x800" | "0x800 \<le> c" "c < 0x10000"
    | "0x10000 \<le> c" "c < 0x110000"
    using assms by linarith
  then show ?thesis
  proof cases
    case 1
    then show ?thesis by (simp add: utf8_units_def)
  next
    case 2
    with two_byte_lead [OF 2] show ?thesis by (simp add: utf8_units_def cont_byte)
  next
    case 3
    with three_byte_lead [OF 3(2)] show ?thesis by (simp add: utf8_units_def cont_byte)
  next
    case 4
    with four_byte_lead [OF 4] show ?thesis by (simp add: utf8_units_def cont_byte)
  qed
qed

lemma utf8_bytes:
  "list_all scalar cs \<Longrightarrow> list_all (\<lambda>b. b < 256) (concat (map utf8_units cs))"
  by (induction cs) (simp_all add: utf8_units_bytes scalar_def)

lemma unat_of_nat_bytes:
  "list_all (\<lambda>b. b < 256) bs \<Longrightarrow> map unat (map of_nat bs :: byte list) = bs"
  by (induction bs) (simp_all add: unat_of_nat take_bit_nat_eq_self)

lemma units_16bit: "list_all (\<lambda>u. u < 0x10000) (map unat (t :: jsstring))"
proof -
  have "unat u < 0x10000" for u :: "16 word"
    using unsigned_less [of u] by simp
  then show ?thesis by (simp add: list_all_iff)
qed

text \<open>
  Encoding a string as UTF-8 and decoding the bytes gives the string with every lone
  surrogate replaced by U+FFFD: the string itself exactly when it is well formed.
\<close>

lemma utf8_roundtrip: "utf8_decode (utf8_encode t) = toWellFormed t"
proof -
  let ?cs = "utf16_code_points (map unat t)"
  have sc: "list_all scalar ?cs"
    by (rule utf16_code_points_scalar [OF units_16bit])
  have "map unat (utf8_encode t) = concat (map utf8_units ?cs)"
    unfolding utf8_encode_def by (rule unat_of_nat_bytes [OF utf8_bytes [OF sc]])
  then have "utf8_code_points (map unat (utf8_encode t)) = ?cs"
    by (simp add: utf8_code_points_units [OF sc])
  then show ?thesis
    by (simp add: utf8_decode_def toWellFormed_def utf16_units_code_points [OF units_16bit])
qed

lemma toWellFormed_units_16bit:
  "list_all (\<lambda>u. u < 0x10000) us \<Longrightarrow> list_all (\<lambda>u. u < 0x10000) (toWellFormed_units us)"
  by (induction us rule: toWellFormed_units.induct) (simp_all add: scalar_of_def)

lemma unat_of_nat_units:
  "list_all (\<lambda>u. u < 0x10000) us \<Longrightarrow> map unat (map of_nat us :: jsstring) = us"
  by (induction us) (simp_all add: unat_of_nat take_bit_nat_eq_self)

lemma toWellFormed_iff: "toWellFormed t = t \<longleftrightarrow> isWellFormed t"
proof
  assume "isWellFormed t"
  then show "toWellFormed t = t"
    by (simp add: toWellFormed_def isWellFormed_def toWellFormed_units_id comp_def)
next
  assume a: "toWellFormed t = t"
  have "map unat (toWellFormed t) = toWellFormed_units (map unat t)"
    unfolding toWellFormed_def
    by (rule unat_of_nat_units [OF toWellFormed_units_16bit [OF units_16bit]])
  with a have "toWellFormed_units (map unat t) = map unat t" by simp
  then show "isWellFormed t"
    unfolding isWellFormed_def by (rule toWellFormed_units_fixed)
qed

lemma utf8_roundtrip_iff: "utf8_decode (utf8_encode t) = t \<longleftrightarrow> isWellFormed t"
  by (simp add: utf8_roundtrip toWellFormed_iff)

section \<open>The envelope of crypto.ts\<close>

lemma length_randomBytes: "length (fst (randomBytes n g)) = n"
  by (simp add: randomBytes_def)

lemma envelope_slices:
  assumes "length salt = SALT_LENGTH" "length iv = IV_LENGTH" "length tag = TAG_LENGTH"
  shows "subarray (salt @ iv @ tag @ encrypted) 0 SALT_LENGTH = salt"
    and "subarray (salt @ iv @ tag @ encrypted) SALT_LENGTH (SALT_LENGTH + IV_LENGTH) = iv"
    and "subarray (salt @ iv @ tag @ encrypted) (SALT_LENGTH + IV_LENGTH)
           (SALT_LENGTH + IV_LENGTH + TAG_LENGTH) = tag"
    and "drop (SALT_LENGTH + IV_LENGTH + TAG_LENGTH) (salt @ iv @ tag @ encrypted) = encrypted"
  using assms by (simp_all add: subarray_def)

lemma decrypt_envelope:
  assumes "length salt = SALT_LENGTH" "length iv = IV_LENGTH" "length tag = TAG_LENGTH"
    and "base64_decode L (base64_encode L (salt @ iv @ tag @ encrypted)) = salt @ iv @ tag @ encrypted"
  shows "decrypt L (base64_encode L (salt @ iv @ tag @ encrypted)) pw =
           (case aes_256_gcm_decrypt L (pbkdf2_sha512 L pw salt ITERATIONS KEY_LENGTH) iv tag
                   encrypted of
              None \<Rightarrow> Inl DecryptError
            | Some plain \<Rightarrow> Inr (utf8_decode plain))"
  unfolding decrypt_def Let_def assms(4)
  by (simp only: envelope_slices [OF assms(1-3)])

lemma encrypt_envelope:
  "encrypt L g t pw =
     (base64_encode L
        (fst (randomBytes SALT_LENGTH g)
         @ fst (randomBytes IV_LENGTH (snd (randomBytes SALT_LENGTH g)))
         @ snd (aes_256_gcm_encrypt L
                  (pbkdf2_sha512 L pw (fst (randomBytes SALT_LENGTH g)) ITERATIONS KEY_LENGTH)
                  (fst (randomBytes IV_LENGTH (snd (randomBytes SALT_LENGTH g))))
                  (utf8_encode t))
         @ fst (aes_256_gcm_encrypt L
                  (pbkdf2_sha512 L pw (fst (randomBytes SALT_LENGTH g)) ITERATIONS KEY_LENGTH)
                  (fst (randomBytes IV_LENGTH (snd (randomBytes SALT_LENGTH g))))
                  (utf8_encode t))),
      snd (randomBytes IV_LENGTH (snd (randomBytes SALT_LENGTH g))))"
  by (simp add: encrypt_def Let_def split: prod.splits)

lemma decrypt_encrypt:
  assumes "crypto_contract L"
  shows "decrypt L (fst (encrypt L g t pw)) pw = Inr (toWellFormed t)"
proof -
  let ?salt = "fst (randomBytes SALT_LENGTH g)"
  let ?iv = "fst (randomBytes IV_LENGTH (snd (randomBytes SALT_LENGTH g)))"
  let ?key = "pbkdf2_sha512 L pw ?salt ITERATIONS KEY_LENGTH"
  let ?c = "aes_256_gcm_encrypt L ?key ?iv (utf8_encode t)"
  have b64: "\<And>bs. base64_decode L (base64_encode L bs) = bs"
    and key: "length ?key = 32"
    using assms by (simp_all add: crypto_contract_def KEY_LENGTH_def)
  have iv: "length ?iv = 16" by (simp add: length_randomBytes IV_LENGTH_def)
  from assms key iv have tag: "length (snd ?c) = 16"
    and dec: "aes_256_gcm_decrypt L ?key ?iv (snd ?c) (fst ?c) = Some (utf8_encode t)"
    unfolding crypto_contract_def by blast+
  have "decrypt L (base64_encode L (?salt @ ?iv @ snd ?c @ fst ?c)) pw =
          Inr (utf8_decode (utf8_encode t))"
    using decrypt_envelope [of ?salt ?iv "snd ?c" L "fst ?c" pw] tag iv dec
    by (simp add: length_randomBytes b64 IV_LENGTH_def TAG_LENGTH_def)
  then show ?thesis
    by (simp add: encrypt_envelope utf8_roundtrip)
qed


lemma randomBytes_window:
  "fst (randomBytes n (snd (randomBytes m g))) = map g [m..<m + n]"
proof -
  have "map (\<lambda>i. g (i + m)) [0..<n] = map g (map (\<lambda>i. i + m) [0..<n])" by (simp add: comp_def)
  also have "\<dots> = map g [m..<m + n]" by (simp only: map_add_upt add.commute)
  finally show ?thesis by (simp add: randomBytes_def)
qed

lemma randomBytes_rest:
  "snd (randomBytes n (snd (randomBytes m g))) = (\<lambda>i. g (i + (m + n)))"
  by (simp add: randomBytes_def ac_simps)

lemma decrypt_verifies:
  assumes "decrypt L encryptedData pw = Inr plain"
  shows "\<exists>bytes.
           aes_256_gcm_decrypt L
             (pbkdf2_sha512 L pw (take 64 (base64_decode L encryptedData)) 100000 32)
             (take 16 (drop 64 (base64_decode L encryptedData)))
             (take 16 (drop 80 (base64_decode L encryptedData)))
             (drop 96 (base64_decode L encryptedData)) = Some bytes \<and>
           plain = utf8_decode bytes"
  using assms
  by (auto simp: decrypt_def Let_def subarray_def SALT_LENGTH_def IV_LENGTH_def TAG_LENGTH_def
      KEY_LENGTH_def ITERATIONS_def split: option.splits)


section \<open>Paths\<close>

lemma segments_name: "0x2F \<notin> set name \<Longrightarrow> segments name = [name]"
  by (induction name) auto

lemma path_join_name: "valid_name name \<Longrightarrow> path_join dir name = dir @ [name]"
  by (simp add: path_join_def valid_name_def segments_name enter_def)

lemma segments_not_Nil: "segments t \<noteq> []"
  by (induction t) auto

lemma token_name_valid: "0x2F \<notin> set user \<Longrightarrow> valid_name (user @ js ''.token'')"
proof -
  assume "0x2F \<notin> set user"
  moreover have "length (user @ js ''.token'') \<ge> 6" by (simp add: js_def)
  then have "user @ js ''.token'' \<noteq> js ''.''" "user @ js ''.token'' \<noteq> js ''..''"
    "user @ js ''.token'' \<noteq> []"
    by (auto simp: js_def dest: arg_cong [of _ _ length])
  ultimately show ?thesis by (simp add: valid_name_def) (simp add: js_def)
qed

lemma tokenPath_plain: "0x2F \<notin> set user \<Longrightarrow> tokenPath dir user = dir @ [user @ js ''.token'']"
  by (simp add: tokenPath_def path_join_name token_name_valid)

section \<open>The outcomes of loadToken\<close>

lemma loadToken_no_entry:
  "token_entry s user = None \<Longrightarrow> loadToken L s user = Return None s"
  by (simp add: loadToken_def existsSync_def token_entry_def)

lemma loadToken_directory:
  "encryptionKey s \<noteq> [] \<Longrightarrow> token_entry s user = Some (Directory m) \<Longrightarrow>
   loadToken L s user = Throw EISDIR s"
  by (simp add: loadToken_def existsSync_def token_entry_def readToken_def readFileSync_def
      unlinkSync_def)

lemma loadToken_file:
  "encryptionKey s \<noteq> [] \<Longrightarrow> token_entry s user = Some (File c m) \<Longrightarrow>
   loadToken L s user =
     (case readToken L s user of
        Inr token \<Rightarrow> Return token s
      | Inl e \<Rightarrow> Return None (s\<lparr>disk := AList.delete (tokenPath (TOKENS_DIR s) user) (disk s)\<rparr>))"
  by (simp add: loadToken_def existsSync_def token_entry_def unlinkSync_def split: sum.splits)

lemma loadToken_shape:
  "loadToken L s user = Throw EISDIR s \<or>
   (\<exists>token. loadToken L s user = Return token s) \<or>
   loadToken L s user =
     Return None (s\<lparr>disk := AList.delete (tokenPath (TOKENS_DIR s) user) (disk s)\<rparr>)"
proof (cases "encryptionKey s = []")
  case True
  then show ?thesis by (simp add: loadToken_def)
next
  case False
  show ?thesis
  proof (cases "token_entry s user")
    case None
    then show ?thesis by (simp add: loadToken_no_entry)
  next
    case (Some n)
    then show ?thesis
      using False by (cases n) (auto simp: loadToken_file loadToken_directory split: sum.splits)
  qed
qed

lemma loadToken_returns:
  "not_a_directory s user \<Longrightarrow> returns (loadToken L s user)"
proof (cases "encryptionKey s = []")
  case True
  then show ?thesis by (simp add: loadToken_def)
next
  case False
  assume nd: "not_a_directory s user"
  show ?thesis
  proof (cases "token_entry s user")
    case None
    then show ?thesis by (simp add: loadToken_no_entry)
  next
    case (Some n)
    with nd obtain c m where "n = File c m"
      by (cases n) (auto simp: not_a_directory_def)
    with Some False show ?thesis by (simp add: loadToken_file split: sum.splits)
  qed
qed

lemma loadToken_again:
  "loadToken L (state_of (loadToken L s user)) user = loadToken L s user"
proof -
  let ?s' = "s\<lparr>disk := AList.delete (tokenPath (TOKENS_DIR s) user) (disk s)\<rparr>"
  have "token_entry ?s' user = None" by (simp add: token_entry_def AList.delete_conv')
  then have "loadToken L ?s' user = Return None ?s'" by (rule loadToken_no_entry)
  with loadToken_shape [of L s user] show ?thesis by auto
qed

lemma loadToken_frame:
  "\<exists>d. state_of (loadToken L s user) = s\<lparr>disk := d\<rparr>"
proof -
  have same: "s = s\<lparr>disk := disk s\<rparr>" by simp
  from loadToken_shape [of L s user]
  consider "state_of (loadToken L s user) = s"
    | "state_of (loadToken L s user) =
         s\<lparr>disk := AList.delete (tokenPath (TOKENS_DIR s) user) (disk s)\<rparr>"
    by auto
  then show ?thesis
  proof cases
    case 1
    with same show ?thesis by (intro exI [of _ "disk s"]) simp
  next
    case 2
    then show ?thesis by (intro exI)
  qed
qed

lemma hasToken_again:
  "hasToken L (state_of (hasToken L s user)) user = hasToken L s user"
proof -
  have "state_of (hasToken L s user) = state_of (loadToken L s user)"
    by (simp add: hasToken_def split: outcome.splits)
  then show ?thesis
    by (simp add: hasToken_def loadToken_again)
qed

lemma hasToken_frame:
  "\<exists>d. state_of (hasToken L s user) = s\<lparr>disk := d\<rparr>"
proof -
  have "state_of (hasToken L s user) = state_of (loadToken L s user)"
    by (simp add: hasToken_def split: outcome.splits)
  then show ?thesis using loadToken_frame [of L s user] by simp
qed

lemma hasToken_throws: "hasToken L s user = Throw e s' \<Longrightarrow> s' = s"
  using loadToken_shape [of L s user]
  by (auto simp: hasToken_def split: outcome.splits)

lemma hasToken_returns: "not_a_directory s user \<Longrightarrow> returns (hasToken L s user)"
  using loadToken_returns [of s user L]
  by (cases "loadToken L s user") (simp_all add: hasToken_def)


lemma readToken_cong:
  "disk s' = disk s \<Longrightarrow> encryptionKey s' = encryptionKey s \<Longrightarrow> TOKENS_DIR s' = TOKENS_DIR s \<Longrightarrow>
   readToken L s' user = readToken L s user"
  by (simp add: readToken_def cong: sum.case_cong)

lemma loadToken_cong:
  assumes "disk s' = disk s" "encryptionKey s' = encryptionKey s" "TOKENS_DIR s' = TOKENS_DIR s"
  shows "value_of (loadToken L s' user) = value_of (loadToken L s user)"
    and "returns (loadToken L s' user) = returns (loadToken L s user)"
  using assms readToken_cong [OF assms, of L user]
  by (auto simp: loadToken_def split: sum.splits)

lemma or_null_truthy: "or_null v = Some x \<Longrightarrow> truthy x"
  by (auto simp: or_null_def split: option.splits if_splits)

lemma readToken_truthy: "readToken L s user = Inr (Some x) \<Longrightarrow> truthy x"
  by (auto simp: readToken_def or_null_truthy split: sum.splits option.splits)

lemma loadToken_truthy: "loadToken L s user = Return (Some x) s' \<Longrightarrow> truthy x"
  using readToken_truthy [of L s user x]
  by (auto simp: loadToken_def split: if_splits sum.splits)

lemma tokenExists_iff:
  "tokenExists L s user \<longleftrightarrow> (\<exists>x. value_of (loadToken L s user) = Some (Some x))"
  by (cases "loadToken L s user") (auto simp: tokenExists_def hasToken_def)

lemma saveToken_loadToken:
  assumes contract: "crypto_contract L"
    and parse: "JSON_parse L (JSON_stringify L (JObj [(js ''refreshToken'', JStr token)])) =
                  Some (JObj [(js ''refreshToken'', JStr token)])"
    and wf: "isWellFormed (JSON_stringify L (JObj [(js ''refreshToken'', JStr token)]))"
    and key: "encryptionKey s \<noteq> []"
    and nul: "0 \<notin> set (concat (tokenPath (TOKENS_DIR s) user))"
    and entry: "token_entry s user = Some (File c m) \<or>
                token_entry s user = None \<and>
                map_of (disk s) (butlast (tokenPath (TOKENS_DIR s) user)) = Some (Directory m)"
  shows "returns (saveToken L now s user token) \<and>
         loadToken L (state_of (saveToken L now s user token)) user =
           Return (if token = [] then None else Some (JStr token))
             (state_of (saveToken L now s user token))"
proof -
  let ?text = "JSON_stringify L (JObj [(js ''refreshToken'', JStr token)])"
  let ?e = "encrypt L (entropy s) ?text (encryptionKey s)"
  let ?s' = "s\<lparr>entropy := snd ?e,
               disk := AList.update (tokenPath (TOKENS_DIR s) user) (File (fst ?e) now) (disk s)\<rparr>"
  from nul entry have "writeFileSync (disk s) (tokenPath (TOKENS_DIR s) user) (fst ?e) now =
      Inr (AList.update (tokenPath (TOKENS_DIR s) user) (File (fst ?e) now) (disk s))"
    by (auto simp: writeFileSync_def token_entry_def)
  with key have save: "saveToken L now s user token = Return () ?s'"
    by (simp add: saveToken_def case_prod_beta)
  have entry: "token_entry ?s' user = Some (File (fst ?e) now)"
    by (simp add: token_entry_def update_conv')
  have "decrypt L (fst ?e) (encryptionKey s) = Inr ?text"
    using decrypt_encrypt [OF contract] wf by (simp add: toWellFormed_iff)
  then have "readToken L ?s' user = Inr (if token = [] then None else Some (JStr token))"
    using entry parse
    by (simp add: readToken_def readFileSync_def token_entry_def or_null_def)
  with key entry have "loadToken L ?s' user =
      Return (if token = [] then None else Some (JStr token)) ?s'"
    by (simp add: loadToken_file)
  with save show ?thesis by simp
qed


lemma loadToken_Some_file: "loadToken L s user = Return (Some x) s' \<Longrightarrow> not_a_directory s user"
proof (cases "token_entry s user")
  case None
  then show ?thesis by (simp add: not_a_directory_def)
next
  case (Some n)
  assume l: "loadToken L s user = Return (Some x) s'"
  then have "encryptionKey s \<noteq> []" by (auto simp: loadToken_def)
  with l Some show ?thesis
    by (cases n) (auto simp: not_a_directory_def loadToken_directory)
qed


lemma deleteToken_absent:
  "token_entry s user = None \<Longrightarrow> deleteToken s user = Return () s"
  by (simp add: deleteToken_def token_entry_def existsSync_def)

lemma deleteToken_file:
  "token_entry s user = Some (File c m) \<Longrightarrow>
   deleteToken s user = Return () (s\<lparr>disk := AList.delete (tokenPath (TOKENS_DIR s) user) (disk s)\<rparr>)"
  by (simp add: deleteToken_def token_entry_def existsSync_def unlinkSync_def)

lemma deleteToken_directory:
  "token_entry s user = Some (Directory m) \<Longrightarrow> deleteToken s user = Throw EISDIR s"
  by (simp add: deleteToken_def token_entry_def existsSync_def unlinkSync_def)


lemma hasToken_shape:
  assumes "not_a_directory s user"
  shows "\<exists>d. hasToken L s user = Return (tokenExists L s user) (s\<lparr>disk := d\<rparr>) \<and>
           (d = disk s \<or>
            \<not> tokenExists L s user \<and> d = AList.delete (tokenPath (TOKENS_DIR s) user) (disk s))"
proof -
  have same: "s\<lparr>disk := disk s\<rparr> = s" by simp
  from loadToken_returns [OF assms, of L] loadToken_shape [of L s user]
  consider token where "loadToken L s user = Return token s"
    | "loadToken L s user =
         Return None (s\<lparr>disk := AList.delete (tokenPath (TOKENS_DIR s) user) (disk s)\<rparr>)"
    by auto
  then show ?thesis
  proof cases
    case 1
    then have "hasToken L s user = Return (tokenExists L s user) (s\<lparr>disk := disk s\<rparr>)"
      by (simp add: hasToken_def tokenExists_def)
    then show ?thesis by blast
  next
    case 2
    then have "hasToken L s user =
        Return False (s\<lparr>disk := AList.delete (tokenPath (TOKENS_DIR s) user) (disk s)\<rparr>)"
      and "\<not> tokenExists L s user"
      by (simp_all add: hasToken_def tokenExists_def)
    then show ?thesis by auto
  qed
qed

lemma deleteToken_not_directory:
  assumes "not_a_directory s user"
  shows "deleteToken s user =
           Return () (s\<lparr>disk := AList.delete (tokenPath (TOKENS_DIR s) user) (disk s)\<rparr>)"
proof (cases "token_entry s user")
  case None
  then have "tokenPath (TOKENS_DIR s) user \<notin> fst ` set (disk s)"
    by (simp add: token_entry_def map_of_eq_None_iff)
  then have "AList.delete (tokenPath (TOKENS_DIR s) user) (disk s) = disk s" by simp
  with deleteToken_absent [OF None] show ?thesis by simp
next
  case (Some n)
  with assms obtain c m where "n = File c m"
    by (cases n) (auto simp: not_a_directory_def)
  with Some show ?thesis by (simp add: deleteToken_file)
qed

lemma tokenExists_cong:
  "disk s' = disk s \<Longrightarrow> encryptionKey s' = encryptionKey s \<Longrightarrow> TOKENS_DIR s' = TOKENS_DIR s \<Longrightarrow>
   tokenExists L s' user = tokenExists L s user"
  using loadToken_cong(1) [of s' s L user] by (simp add: tokenExists_iff)

lemma tokenExists_no_entry: "token_entry s user = None \<Longrightarrow> \<not> tokenExists L s user"
  by (simp add: tokenExists_iff loadToken_no_entry)


lemma tokenExists_saved: "tokenExists L s user = has_saved_token L s user"
proof (cases "encryptionKey s = []")
  case True
  then show ?thesis
    by (simp add: tokenExists_def hasToken_def loadToken_def has_saved_token_def)
next
  case False
  show ?thesis
  proof (cases "token_entry s user")
    case None
    then show ?thesis
      by (simp add: tokenExists_def hasToken_def loadToken_no_entry has_saved_token_def)
  next
    case (Some n)
    show ?thesis
    proof (cases n)
      case (Directory m)
      with Some False show ?thesis
        by (simp add: tokenExists_def hasToken_def loadToken_directory has_saved_token_def)
    next
      case (File c m)
      with Some have r: "readFileSync (disk s) (tokenPath (TOKENS_DIR s) user) = Inr c"
        by (simp add: readFileSync_def token_entry_def)
      from Some File False show ?thesis
        by (auto simp: tokenExists_def hasToken_def loadToken_file has_saved_token_def
            readToken_def r or_null_def split: sum.splits option.splits)
    qed
  qed
qed

lemma saveToken_frame:
  "timeouts (state_of (saveToken L now s user token)) = timeouts s"
  "reconnectTimers (state_of (saveToken L now s user token)) = reconnectTimers s"
  "accountsToReconnect (state_of (saveToken L now s user token)) = accountsToReconnect s"
  "nextTimeout (state_of (saveToken L now s user token)) = nextTimeout s"
  "activeClients (state_of (saveToken L now s user token)) = activeClients s"
  "encryptionKey (state_of (saveToken L now s user token)) = encryptionKey s"
  "TOKENS_DIR (state_of (saveToken L now s user token)) = TOKENS_DIR s"
  by (simp_all add: saveToken_def case_prod_beta split: sum.splits)

lemma saveToken_saved:
  assumes "crypto_contract L"
    and "JSON_parse L (JSON_stringify L (JObj [(js ''refreshToken'', JStr token)])) =
           Some (JObj [(js ''refreshToken'', JStr token)])"
    and "isWellFormed (JSON_stringify L (JObj [(js ''refreshToken'', JStr token)]))"
    and "encryptionKey s \<noteq> []"
    and "0 \<notin> set (concat (tokenPath (TOKENS_DIR s) user))"
    and "token_entry s user = Some (File c m) \<or>
         token_entry s user = None \<and>
         map_of (disk s) (butlast (tokenPath (TOKENS_DIR s) user)) = Some (Directory m)"
    and "token \<noteq> []"
  shows "has_saved_token L (state_of (saveToken L now s user token)) user"
proof -
  from saveToken_loadToken [OF assms(1-6), of now] assms(7)
  have "loadToken L (state_of (saveToken L now s user token)) user =
      Return (Some (JStr token)) (state_of (saveToken L now s user token))"
    by simp
  then show ?thesis
    by (simp add: tokenExists_saved [symmetric] tokenExists_iff)
qed

section \<open>The outcomes of scheduleReconnect\<close>

lemma scheduleReconnect_pending:
  "reconnectTimers s (username a) \<noteq> None \<Longrightarrow> scheduleReconnect L s a = Return () s"
  by (simp add: scheduleReconnect_def)

lemma scheduleReconnect_throws:
  "reconnectTimers s (username a) = None \<Longrightarrow> hasToken L s (username a) = Throw e s' \<Longrightarrow>
   scheduleReconnect L s a = Throw e s"
  using hasToken_throws [of L s "username a" e s'] by (simp add: scheduleReconnect_def)

lemma scheduleReconnect_ineligible:
  "reconnectTimers s (username a) = None \<Longrightarrow> hasToken L s (username a) = Return b s1 \<Longrightarrow>
   \<not> canAutoReconnect b a \<Longrightarrow> scheduleReconnect L s a = Return () s1"
  by (simp add: scheduleReconnect_def)

lemma scheduleReconnect_eligible:
  "reconnectTimers s (username a) = None \<Longrightarrow> hasToken L s (username a) = Return b s1 \<Longrightarrow>
   canAutoReconnect b a \<Longrightarrow>
   scheduleReconnect L s a =
     Return ()
       (s1\<lparr>accountsToReconnect := (accountsToReconnect s1)(username a \<mapsto> a),
           timeouts := timeouts s1 @ [(nextTimeout s1, a)],
           nextTimeout := nextTimeout s1 + 1,
           reconnectTimers := (reconnectTimers s1)(username a \<mapsto> nextTimeout s1)\<rparr>)"
  by (simp add: scheduleReconnect_def setTimeout_def)

lemma hasToken_Return_frame:
  assumes "hasToken L s user = Return b s1"
  shows "reconnectTimers s1 = reconnectTimers s" "accountsToReconnect s1 = accountsToReconnect s"
    "timeouts s1 = timeouts s" "nextTimeout s1 = nextTimeout s" "activeClients s1 = activeClients s"
    "encryptionKey s1 = encryptionKey s"
proof -
  from hasToken_frame [of L s user] assms obtain d where "s1 = s\<lparr>disk := d\<rparr>" by auto
  then show "reconnectTimers s1 = reconnectTimers s" "accountsToReconnect s1 = accountsToReconnect s"
    "timeouts s1 = timeouts s" "nextTimeout s1 = nextTimeout s" "activeClients s1 = activeClients s"
    "encryptionKey s1 = encryptionKey s"
    by simp_all
qed

lemma tokenExists_Return: "hasToken L s user = Return b s1 \<Longrightarrow> tokenExists L s user = b"
  by (simp add: tokenExists_def)

lemma scheduleReconnect_again:
  "scheduleReconnect L (state_of (scheduleReconnect L s a)) a = scheduleReconnect L s a"
proof (cases "reconnectTimers s (username a) = None")
  case False
  then show ?thesis by (simp add: scheduleReconnect_pending)
next
  case True
  show ?thesis
  proof (cases "hasToken L s (username a)")
    case (Throw e s')
    from scheduleReconnect_throws [OF True Throw] show ?thesis by simp
  next
    case (Return b s1)
    note fr = hasToken_Return_frame [OF Return]
    from hasToken_again [of L s "username a"] Return
    have again: "hasToken L s1 (username a) = Return b s1" by simp
    show ?thesis
    proof (cases "canAutoReconnect b a")
      case False
      from True fr have "reconnectTimers s1 (username a) = None" by simp
      from scheduleReconnect_ineligible [OF this again False]
        scheduleReconnect_ineligible [OF True Return False]
      show ?thesis by simp
    next
      case eligible: True
      from scheduleReconnect_eligible [OF True Return eligible]
      show ?thesis by (simp add: scheduleReconnect_pending)
    qed
  qed
qed

lemma registered_armed:
  assumes "timers_registered s"
  shows "reconnectTimers s user = None \<Longrightarrow> armed s user = []"
    and "reconnectTimers s user \<noteq> None \<Longrightarrow>
         length (armed s user) = 1 \<and> accountsToReconnect s user \<noteq> None"
proof -
  from assms have m: "map fst (armed s user) =
      (case reconnectTimers s user of None \<Rightarrow> [] | Some timer \<Rightarrow> [timer])"
    and r: "reconnectTimers s user \<noteq> None \<longrightarrow> accountsToReconnect s user \<noteq> None"
    by (simp_all add: timers_registered_def)
  show "armed s user = []" if "reconnectTimers s user = None"
    using m that by simp
  show "length (armed s user) = 1 \<and> accountsToReconnect s user \<noteq> None"
    if "reconnectTimers s user \<noteq> None"
  proof -
    from that obtain timer where "reconnectTimers s user = Some timer" by auto
    with m have "length (map fst (armed s user)) = 1" by simp
    with r that show ?thesis by simp
  qed
qed

lemma registered_vault:
  assumes "timers_registered s" "timeouts s' = timeouts s" "nextTimeout s' = nextTimeout s"
    "reconnectTimers s' = reconnectTimers s" "accountsToReconnect s' = accountsToReconnect s"
  shows "timers_registered s'"
  using assms by (simp add: timers_registered_def armed_def)

lemma registered_new_timer:
  assumes reg: "timers_registered s" and unset: "reconnectTimers s (username a) = None"
  shows "timers_registered
           (s\<lparr>accountsToReconnect := (accountsToReconnect s)(username a \<mapsto> a),
              timeouts := timeouts s @ [(nextTimeout s, a)],
              nextTimeout := nextTimeout s + 1,
              reconnectTimers := (reconnectTimers s)(username a \<mapsto> nextTimeout s)\<rparr>)"
proof -
  let ?s' = "s\<lparr>accountsToReconnect := (accountsToReconnect s)(username a \<mapsto> a),
              timeouts := timeouts s @ [(nextTimeout s, a)],
              nextTimeout := nextTimeout s + 1,
              reconnectTimers := (reconnectTimers s)(username a \<mapsto> nextTimeout s)\<rparr>"
  from reg have m: "\<And>user. map fst (armed s user) =
        (case reconnectTimers s user of None \<Rightarrow> [] | Some timer \<Rightarrow> [timer])"
    and r: "\<And>user. reconnectTimers s user \<noteq> None \<longrightarrow> accountsToReconnect s user \<noteq> None"
    and d: "distinct (map fst (timeouts s))"
    and b: "list_all (\<lambda>t. fst t < nextTimeout s) (timeouts s)"
    by (simp_all add: timers_registered_def)
  from b have fresh: "nextTimeout s \<notin> fst ` set (timeouts s)"
    by (auto simp: list_all_iff)
  have 1: "map fst (armed ?s' user) =
      (case reconnectTimers ?s' user of None \<Rightarrow> [] | Some timer \<Rightarrow> [timer])" for user
  proof (cases "user = username a")
    case True
    from registered_armed(1) [OF reg unset] True show ?thesis by (simp add: armed_def)
  next
    case False
    with m [of user] show ?thesis by (simp add: armed_def)
  qed
  have 2: "reconnectTimers ?s' user \<noteq> None \<longrightarrow> accountsToReconnect ?s' user \<noteq> None" for user
    using r [of user] by simp
  have 3: "distinct (map fst (timeouts ?s'))" using d fresh by simp
  have 4: "list_all (\<lambda>t. fst t < nextTimeout ?s') (timeouts ?s')"
    using b by (auto simp: list_all_iff)
  from 1 2 3 4 show ?thesis unfolding timers_registered_def by blast
qed

lemma scheduleReconnect_keeps_registered:
  assumes "timers_registered s"
  shows "timers_registered (state_of (scheduleReconnect L s a))"
proof (cases "reconnectTimers s (username a) = None")
  case False
  with assms show ?thesis by (simp add: scheduleReconnect_pending)
next
  case True
  show ?thesis
  proof (cases "hasToken L s (username a)")
    case (Throw e s')
    from scheduleReconnect_throws [OF True Throw] assms show ?thesis by simp
  next
    case (Return b s1)
    note fr = hasToken_Return_frame [OF Return]
    have s1: "timers_registered s1"
      by (rule registered_vault [OF assms fr(3,4,1,2)])
    show ?thesis
    proof (cases "canAutoReconnect b a")
      case False
      from scheduleReconnect_ineligible [OF True Return False] s1 show ?thesis by simp
    next
      case eligible: True
      from True fr have unset: "reconnectTimers s1 (username a) = None" by simp
      from scheduleReconnect_eligible [OF True Return eligible]
        registered_new_timer [OF s1 unset]
      show ?thesis by simp
    qed
  qed
qed

lemma initial_state_registered: "timers_registered (initial_state g dirname d)"
  by (simp add: timers_registered_def initial_state_def armed_def)

lemma registered_timer_removed:
  assumes reg: "timers_registered s" and t: "reconnectTimers s user = Some timer"
  shows "timers_registered
           (s\<lparr>timeouts := filter (\<lambda>t. fst t \<noteq> timer) (timeouts s),
              reconnectTimers := (reconnectTimers s)(user := None),
              accountsToReconnect := (accountsToReconnect s)(user := None)\<rparr>)"
proof -
  let ?s' = "s\<lparr>timeouts := filter (\<lambda>t. fst t \<noteq> timer) (timeouts s),
              reconnectTimers := (reconnectTimers s)(user := None),
              accountsToReconnect := (accountsToReconnect s)(user := None)\<rparr>"
  from reg have m: "\<And>u. map fst (armed s u) =
        (case reconnectTimers s u of None \<Rightarrow> [] | Some timer \<Rightarrow> [timer])"
    and r: "\<And>u. reconnectTimers s u \<noteq> None \<longrightarrow> accountsToReconnect s u \<noteq> None"
    and d: "distinct (map fst (timeouts s))"
    and b: "list_all (\<lambda>t. fst t < nextTimeout s) (timeouts s)"
    by (simp_all add: timers_registered_def)
  have armed': "armed ?s' u = filter (\<lambda>t. fst t \<noteq> timer) (armed s u)" for u
    by (auto simp: armed_def intro: filter_cong)
  have 1: "map fst (armed ?s' u) =
      (case reconnectTimers ?s' u of None \<Rightarrow> [] | Some timer \<Rightarrow> [timer])" for u
  proof (cases "u = user")
    case True
    from m [of user] t have "map fst (armed s user) = [timer]" by simp
    then have "filter (\<lambda>t. fst t \<noteq> timer) (armed s user) = []"
      by (auto simp: filter_empty_conv)
    with True show ?thesis by (simp add: armed')
  next
    case False
    have "timer \<notin> fst ` set (armed s u)"
    proof
      assume "timer \<in> fst ` set (armed s u)"
      then obtain a where in_u: "(timer, a) \<in> set (timeouts s)" "username a = u"
        by (auto simp: armed_def)
      from m [of user] t have "map fst (armed s user) = [timer]" by simp
      then have "timer \<in> fst ` set (armed s user)"
        by (metis list.set_intros(1) list.set_map)
      then obtain a' where in_user: "(timer, a') \<in> set (timeouts s)" "username a' = user"
        by (auto simp: armed_def)
      from d in_u(1) in_user(1) have "a = a'"
        by (meson distinct_map eq_key_imp_eq_value)
      with in_u(2) in_user(2) False show False by simp
    qed
    then have "filter (\<lambda>t. fst t \<noteq> timer) (armed s u) = armed s u"
      by (auto simp: filter_id_conv)
    with m [of u] False show ?thesis by (simp add: armed')
  qed
  have 2: "reconnectTimers ?s' u \<noteq> None \<longrightarrow> accountsToReconnect ?s' u \<noteq> None" for u
    using r [of u] by simp
  have 3: "distinct (map fst (timeouts ?s'))" using d by (simp add: distinct_map_filter)
  have 4: "list_all (\<lambda>t. fst t < nextTimeout ?s') (timeouts ?s')"
    using b by (auto simp: list_all_iff)
  from 1 2 3 4 show ?thesis unfolding timers_registered_def by blast
qed

lemma cancelReconnect_keeps_registered:
  assumes "timers_registered s"
  shows "timers_registered (cancelReconnect s user)"
proof (cases "reconnectTimers s user")
  case None
  have "cancelReconnect s user = s\<lparr>accountsToReconnect := (accountsToReconnect s)(user := None)\<rparr>"
    using None by (simp add: cancelReconnect_def)
  moreover have "timers_registered (s\<lparr>accountsToReconnect := (accountsToReconnect s)(user := None)\<rparr>)"
    using assms None by (auto simp: timers_registered_def armed_def)
  ultimately show ?thesis by simp
next
  case (Some timer)
  from registered_timer_removed [OF assms Some] Some show ?thesis
    by (simp add: cancelReconnect_def clearTimeout_def)
qed

lemma timer_fires_keeps_registered:
  assumes reg: "timers_registered s" and armed: "(timer, a) \<in> set (timeouts s)"
  shows "timers_registered (timer_fires s timer a)"
proof -
  from armed have "timer \<in> set (map fst (armed s (username a)))"
    by (force simp: armed_def)
  with reg have "reconnectTimers s (username a) = Some timer"
    by (auto simp: timers_registered_def split: option.splits dest!: spec [of _ "username a"])
  from registered_timer_removed [OF reg this] show ?thesis
    by (simp add: timer_fires_def)
qed

lemma enableAutoReconnect_keeps_registered:
  "timers_registered s \<Longrightarrow> timers_registered (enableAutoReconnect s a)"
  by (auto simp: timers_registered_def enableAutoReconnect_def armed_def)


lemma scheduleReconnect_effect:
  assumes "not_a_directory s (username a)"
  shows "\<exists>s'. scheduleReconnect L s a = Return () s' \<and>
     activeClients s' = activeClients s \<and>
     (token_entry s' (username a) = token_entry s (username a) \<or>
      \<not> tokenExists L s (username a) \<and> token_entry s' (username a) = None) \<and>
     (reconnectTimers s (username a) = None \<and>
      (tokenExists L s (username a) \<or> has_sharedSecret a \<or> guardType a = Some GuardNone) \<longrightarrow>
        timeouts s' = timeouts s @ [(nextTimeout s, a)] \<and>
        reconnectTimers s' = (reconnectTimers s)(username a \<mapsto> nextTimeout s) \<and>
        accountsToReconnect s' = (accountsToReconnect s)(username a \<mapsto> a)) \<and>
     (\<not> (reconnectTimers s (username a) = None \<and>
         (tokenExists L s (username a) \<or> has_sharedSecret a \<or> guardType a = Some GuardNone)) \<longrightarrow>
        timeouts s' = timeouts s \<and> reconnectTimers s' = reconnectTimers s \<and>
        accountsToReconnect s' = accountsToReconnect s)"
proof (cases "reconnectTimers s (username a) = None")
  case False
  then show ?thesis by (simp add: scheduleReconnect_pending)
next
  case True
  from hasToken_shape [OF assms, of L] obtain d where
    h: "hasToken L s (username a) = Return (tokenExists L s (username a)) (s\<lparr>disk := d\<rparr>)"
    and d: "d = disk s \<or>
            \<not> tokenExists L s (username a) \<and> d = AList.delete (tokenPath (TOKENS_DIR s) (username a)) (disk s)"
    by blast
  let ?s1 = "s\<lparr>disk := d\<rparr>"
  from d have e: "token_entry ?s1 (username a) = token_entry s (username a) \<or>
      \<not> tokenExists L s (username a) \<and> token_entry ?s1 (username a) = None"
    by (auto simp: token_entry_def delete_conv')
  show ?thesis
  proof (cases "canAutoReconnect (tokenExists L s (username a)) a")
    case eligible: True
    let ?s' = "?s1\<lparr>accountsToReconnect := (accountsToReconnect ?s1)(username a \<mapsto> a),
                 timeouts := timeouts ?s1 @ [(nextTimeout ?s1, a)],
                 nextTimeout := nextTimeout ?s1 + 1,
                 reconnectTimers := (reconnectTimers ?s1)(username a \<mapsto> nextTimeout ?s1)\<rparr>"
    have r: "scheduleReconnect L s a = Return () ?s'"
      by (rule scheduleReconnect_eligible [OF True h eligible])
    have c: "tokenExists L s (username a) \<or> has_sharedSecret a \<or> guardType a = Some GuardNone"
      using eligible by (simp add: canAutoReconnect_def)
    have t: "token_entry ?s' (username a) = token_entry ?s1 (username a)"
      by (simp add: token_entry_def)
    show ?thesis
    proof (rule exI [of _ ?s'], intro conjI impI)
      show "scheduleReconnect L s a = Return () ?s'" by (rule r)
      show "activeClients ?s' = activeClients s" by simp
      show "token_entry ?s' (username a) = token_entry s (username a) \<or>
        \<not> tokenExists L s (username a) \<and> token_entry ?s' (username a) = None"
        using e unfolding t .
      show "timeouts ?s' = timeouts s @ [(nextTimeout s, a)]" by simp
      show "reconnectTimers ?s' = (reconnectTimers s)(username a \<mapsto> nextTimeout s)" by simp
      show "accountsToReconnect ?s' = (accountsToReconnect s)(username a \<mapsto> a)" by simp
    next
      assume "\<not> (reconnectTimers s (username a) = None \<and>
         (tokenExists L s (username a) \<or> has_sharedSecret a \<or> guardType a = Some GuardNone))"
      with True c have False by blast
      then show "timeouts ?s' = timeouts s" "reconnectTimers ?s' = reconnectTimers s"
        "accountsToReconnect ?s' = accountsToReconnect s" by blast+
    qed
  next
    case False
    have r: "scheduleReconnect L s a = Return () ?s1"
      by (rule scheduleReconnect_ineligible [OF True h False])
    have c: "\<not> (tokenExists L s (username a) \<or> has_sharedSecret a \<or> guardType a = Some GuardNone)"
      using False by (simp add: canAutoReconnect_def)
    show ?thesis
    proof (rule exI [of _ ?s1], intro conjI impI)
      show "scheduleReconnect L s a = Return () ?s1" by (rule r)
      show "activeClients ?s1 = activeClients s" by simp
      show "token_entry ?s1 (username a) = token_entry s (username a) \<or>
        \<not> tokenExists L s (username a) \<and> token_entry ?s1 (username a) = None"
        by (rule e)
      show "timeouts ?s1 = timeouts s" "reconnectTimers ?s1 = reconnectTimers s"
        "accountsToReconnect ?s1 = accountsToReconnect s" by simp_all
    next
      assume "reconnectTimers s (username a) = None \<and>
         (tokenExists L s (username a) \<or> has_sharedSecret a \<or> guardType a = Some GuardNone)"
      with c have False by blast
      then show "timeouts ?s1 = timeouts s @ [(nextTimeout s, a)]"
        "reconnectTimers ?s1 = (reconnectTimers s)(username a \<mapsto> nextTimeout s)"
        "accountsToReconnect ?s1 = (accountsToReconnect s)(username a \<mapsto> a)" by blast+
    qed
  qed
qed


section \<open>The options of logOn\<close>

lemma cancelReconnect_vault:
  "disk (cancelReconnect s user) = disk s"
  "encryptionKey (cancelReconnect s user) = encryptionKey s"
  "TOKENS_DIR (cancelReconnect s user) = TOKENS_DIR s"
  by (simp_all add: cancelReconnect_def clearTimeout_def Let_def split: option.splits)

lemma login_logOn_shape:
  "\<exists>s2. disk s2 = disk s \<and> encryptionKey s2 = encryptionKey s \<and> TOKENS_DIR s2 = TOKENS_DIR s \<and>
     login_logOn L s a =
       (case loadToken L s2 (username a) of
          Throw e s3 \<Rightarrow> Throw e s3
        | Return savedToken s3 \<Rightarrow>
            if savedToken \<noteq> None
            then Return (initial_options\<lparr>opt_refreshToken := savedToken\<rparr>) s3
            else
              Return
                (initial_options
                   \<lparr>opt_accountName := Some (username a),
                    opt_password := Some (password a),
                    opt_twoFactorCode :=
                      (case sharedSecret a of
                         None \<Rightarrow> None
                       | Some secret \<Rightarrow>
                           if secret \<noteq> [] then Some (generateAuthCode L secret) else None)\<rparr>)
                s3)"
proof -
  let ?s1 = "cancelReconnect s (username a)"
  let ?s2 = "case activeClients ?s1 (username a) of
               None \<Rightarrow> ?s1
             | Some existing \<Rightarrow> ?s1\<lparr>activeClients := (activeClients ?s1)(username a := None)\<rparr>"
  have v: "disk ?s2 = disk s" "encryptionKey ?s2 = encryptionKey s" "TOKENS_DIR ?s2 = TOKENS_DIR s"
    by (simp_all add: cancelReconnect_vault split: option.splits)
  have t: "(case savedToken of None \<Rightarrow> False | Some token \<Rightarrow> truthy token) = (savedToken \<noteq> None)"
    if "loadToken L ?s2 (username a) = Return savedToken s3" for savedToken s3
    using loadToken_truthy [of L ?s2 "username a" _ s3] that by (cases savedToken) auto
  have "login_logOn L s a =
       (case loadToken L ?s2 (username a) of
          Throw e s3 \<Rightarrow> Throw e s3
        | Return savedToken s3 \<Rightarrow>
            if savedToken \<noteq> None
            then Return (initial_options\<lparr>opt_refreshToken := savedToken\<rparr>) s3
            else
              Return
                (initial_options
                   \<lparr>opt_accountName := Some (username a),
                    opt_password := Some (password a),
                    opt_twoFactorCode :=
                      (case sharedSecret a of
                         None \<Rightarrow> None
                       | Some secret \<Rightarrow>
                           if secret \<noteq> [] then Some (generateAuthCode L secret) else None)\<rparr>)
                s3)"
    using t by (simp add: login_logOn_def Let_def split: outcome.splits)
  with v show ?thesis by blast
qed


section \<open>The error handler\<close>

lemma on_error_steps:
  assumes nd: "not_a_directory s (username a)" and acc: "attempt_account att = a"
  shows "\<exists>s2.
     on_error L s att message =
       (case (if transient message then scheduleReconnect L s2 a else Return () s2) of
          Throw e s3 \<Rightarrow> Throw e s3
        | Return u' s3 \<Rightarrow>
            Return (resolve (Failure message) (att\<lparr>timeoutArmed := False, listening := False\<rparr>)) s3) \<and>
     not_a_directory s2 (username a) \<and>
     activeClients s2 (username a) = None \<and>
     reconnectTimers s2 = reconnectTimers s \<and> timeouts s2 = timeouts s \<and>
     nextTimeout s2 = nextTimeout s \<and> accountsToReconnect s2 = accountsToReconnect s \<and>
     token_entry s2 (username a) = (if credential_invalid message then None else token_entry s (username a)) \<and>
     tokenExists L s2 (username a) = (\<not> credential_invalid message \<and> tokenExists L s (username a))"
proof -
  let ?s1 = "s\<lparr>activeClients := (activeClients s)(username a := None)\<rparr>"
  have nd1: "not_a_directory ?s1 (username a)"
    using nd by (simp add: not_a_directory_def token_entry_def)
  have te1: "tokenExists L ?s1 (username a) = tokenExists L s (username a)"
    by (rule tokenExists_cong) simp_all
  show ?thesis
  proof (cases "credential_invalid message")
    case True
    let ?s2 = "?s1\<lparr>disk := AList.delete (tokenPath (TOKENS_DIR ?s1) (username a)) (disk ?s1)\<rparr>"
    have e: "token_entry ?s2 (username a) = None"
      by (simp add: token_entry_def delete_conv')
    have "on_error L s att message =
       (case (if transient message then scheduleReconnect L ?s2 a else Return () ?s2) of
          Throw e s3 \<Rightarrow> Throw e s3
        | Return u' s3 \<Rightarrow>
            Return (resolve (Failure message) (att\<lparr>timeoutArmed := False, listening := False\<rparr>)) s3)"
      using True deleteToken_not_directory [OF nd1]
      by (simp add: on_error_def acc Let_def)
    moreover have "not_a_directory ?s2 (username a)"
      using e by (simp add: not_a_directory_def)
    moreover have "\<not> tokenExists L ?s2 (username a)"
      by (rule tokenExists_no_entry [OF e])
    ultimately show ?thesis
      using True e by (intro exI [of _ ?s2]) simp
  next
    case False
    have "on_error L s att message =
       (case (if transient message then scheduleReconnect L ?s1 a else Return () ?s1) of
          Throw e s3 \<Rightarrow> Throw e s3
        | Return u' s3 \<Rightarrow>
            Return (resolve (Failure message) (att\<lparr>timeoutArmed := False, listening := False\<rparr>)) s3)"
      using False by (simp add: on_error_def acc Let_def)
    moreover have "token_entry ?s1 (username a) = token_entry s (username a)"
      by (simp add: token_entry_def)
    ultimately show ?thesis
      using False nd1 te1 by (intro exI [of _ ?s1]) simp
  qed
qed

lemma resolve_detached:
  "resolution (resolve r (att\<lparr>timeoutArmed := False, listening := False\<rparr>)) =
     Some (case resolution att of None \<Rightarrow> r | Some r' \<Rightarrow> r') \<and>
   \<not> timeoutArmed (resolve r (att\<lparr>timeoutArmed := False, listening := False\<rparr>)) \<and>
   \<not> listening (resolve r (att\<lparr>timeoutArmed := False, listening := False\<rparr>))"
  by (simp add: resolve_def split: option.splits)

section \<open>Facts about the example library\<close>

lemma example_tag_nonempty: "([] = take 16 (k @ replicate 16 (0::byte))) = False"
proof -
  have "length (take 16 (k @ replicate 16 (0::byte))) = 16" by simp
  then show ?thesis by (metis length_0_conv zero_neq_numeral)
qed

lemma example_no_tag: "aes_256_gcm_decrypt example_lib key iv [] encrypted = None"
  unfolding example_lib_def by (simp only: lib.select_convs example_tag_nonempty if_False)

lemma example_decrypt_short:
  assumes "length encryptedData \<le> 80"
  shows "decrypt example_lib encryptedData pw = Inl DecryptError"
proof -
  have b: "base64_decode example_lib encryptedData = map ucast encryptedData"
    by (simp add: example_lib_def)
  from assms have "subarray (base64_decode example_lib encryptedData) (SALT_LENGTH + IV_LENGTH)
               (SALT_LENGTH + IV_LENGTH + TAG_LENGTH) = []"
    by (simp add: b subarray_def SALT_LENGTH_def IV_LENGTH_def)
  then show ?thesis
    by (simp only: decrypt_def Let_def example_no_tag option.case)
qed

lemma example_decrypt_fails:
  "decrypt example_lib (js ''AAAA'') (js ''0123456789abcdef'') = Inl DecryptError"
  by (rule example_decrypt_short) (simp add: js_def)

lemma ucast_byte_unit: "ucast (ucast (b :: byte) :: 16 word) = b"
  by (simp add: ucast_up_ucast_id is_up)

lemma example_contract: "crypto_contract example_lib"
  by (auto simp: crypto_contract_def example_lib_def ucast_byte_unit comp_def min_def)

lemma example_TOKENS_DIR:
  "TOKENS_DIR sweep_example = [js ''app'', js ''data'', js ''tokens'']"
  by (simp add: sweep_example_def initial_state_def path_join_def enter_def js_def)

lemma example_tokenPath:
  "tokenPath (TOKENS_DIR sweep_example) (js ''alice'') =
     [js ''app'', js ''data'', js ''tokens'', js ''alice.token'']"
  "tokenPath (TOKENS_DIR sweep_example) (js ''bob'') =
     [js ''app'', js ''data'', js ''tokens'', js ''bob.token'']"
  "tokenPath (TOKENS_DIR sweep_example) (js ''dave'') =
     [js ''app'', js ''data'', js ''tokens'', js ''dave.token'']"
  by (simp_all add: example_TOKENS_DIR tokenPath_plain js_def)

lemma example_disk_sweep: "disk sweep_example = example_disk"
  by (simp add: sweep_example_def initial_state_def)

lemma sweep_example_entries:
  "token_entry sweep_example (js ''alice'') = Some (File (js ''AAAA'') 0)"
  "token_entry sweep_example (js ''bob'') = None"
  "token_entry sweep_example (js ''dave'') = None"
  by (simp_all add: token_entry_def example_tokenPath example_disk_sweep example_disk_def)
    (simp_all add: js_def)

lemma bob_not_directory: "not_a_directory sweep_example (username bob)"
  by (simp add: not_a_directory_def bob_def example_account_def sweep_example_entries)

lemma dave_not_directory: "not_a_directory sweep_example (username dave)"
  by (simp add: not_a_directory_def dave_def example_account_def sweep_example_entries)

lemma sweep_example_no_timers: "reconnectTimers sweep_example = Map.empty"
  "timeouts sweep_example = []" "nextTimeout sweep_example = 0"
  "accountsToReconnect sweep_example = Map.empty"
  by (simp_all add: sweep_example_def initial_state_def)


lemma sweep_example_registered: "timers_registered sweep_example"
  by (simp add: timers_registered_def sweep_example_def initial_state_def armed_def)

lemma sweep_example_hasToken: "hasToken L sweep_example user = Return False sweep_example"
  by (simp add: hasToken_def loadToken_def sweep_example_def initial_state_def)

lemma sweep_example_bob:
  "scheduleReconnect L sweep_example bob =
     Return ()
       (sweep_example
          \<lparr>accountsToReconnect := [username bob \<mapsto> bob],
           timeouts := [(0, bob)],
           nextTimeout := 1,
           reconnectTimers := [username bob \<mapsto> 0]\<rparr>)"
proof -
  have p: "reconnectTimers sweep_example (username bob) = None"
    by (simp add: sweep_example_no_timers)
  have e: "canAutoReconnect False bob"
    by (simp add: canAutoReconnect_def bob_def example_account_def)
  from scheduleReconnect_eligible [OF p sweep_example_hasToken e]
  show ?thesis by (simp add: sweep_example_no_timers)
qed


lemma example_stringify:
  "JSON_stringify example_lib (JObj [(js ''refreshToken'', JStr token)]) = token"
  by (simp add: example_lib_def)

lemma example_parse:
  "token \<noteq> [] \<Longrightarrow> JSON_parse example_lib token = Some (JObj [(js ''refreshToken'', JStr token)])"
  by (simp add: example_lib_def)

lemma keyed_example_key: "encryptionKey keyed_example \<noteq> []"
  by (simp add: keyed_example_def setEncryptionKey_def js_def)

lemma keyed_example_vault:
  "disk keyed_example = example_disk" "TOKENS_DIR keyed_example = TOKENS_DIR sweep_example"
  "encryptionKey keyed_example = js ''0123456789abcdef''"
  by (simp_all add: keyed_example_def setEncryptionKey_def example_disk_sweep)

lemma keyed_example_entry:
  "token_entry keyed_example (js ''alice'') = Some (File (js ''AAAA'') 0)"
  using sweep_example_entries(1)
  by (simp add: token_entry_def keyed_example_vault example_disk_sweep)

lemma keyed_example_path: "0 \<notin> set (concat (tokenPath (TOKENS_DIR keyed_example) (js ''alice'')))"
  by (simp add: keyed_example_vault example_tokenPath) (simp add: js_def)

lemma saved_example_loadToken:
  "loadToken example_lib saved_example (js ''alice'') =
     Return (Some (JStr (js ''refresh-token''))) saved_example"
proof -
  have n: "js ''refresh-token'' \<noteq> []" by (simp add: js_def)
  have w: "isWellFormed (js ''refresh-token'')"
    by (simp add: isWellFormed_def js_def is_high_def is_low_def)
  from saveToken_loadToken [where L = example_lib and token = "js ''refresh-token''"
      and s = keyed_example and user = "js ''alice''" and now = 1700000000000,
      OF example_contract _ _ keyed_example_key keyed_example_path
      disjI1 [OF keyed_example_entry]] n w
  show ?thesis
    by (simp add: example_stringify example_parse saved_example_def)
qed

lemma username_alice: "username alice = js ''alice''"
  by (simp add: alice_def example_account_def)


lemma saved_example_no_timers: "reconnectTimers saved_example = Map.empty"
  "timeouts saved_example = []" "nextTimeout saved_example = 0"
  "accountsToReconnect saved_example = Map.empty"
  by (simp_all add: saved_example_def saveToken_frame keyed_example_def setEncryptionKey_def
      sweep_example_no_timers)

lemma saved_example_registered: "timers_registered saved_example"
  by (simp add: timers_registered_def armed_def saved_example_no_timers)

lemma saved_example_holds: "has_saved_token example_lib saved_example (js ''alice'')"
  by (simp add: tokenExists_saved [symmetric] tokenExists_iff saved_example_loadToken)

lemma saved_example_alice: "not_a_directory saved_example (js ''alice'')"
  by (rule loadToken_Some_file [OF saved_example_loadToken])

lemma username_alice_mobile: "username alice_mobile = js ''alice''"
  by (simp add: alice_mobile_def example_account_def)

section \<open>Encryption and decryption\<close>

text \<open>
  C1, as the code has it. Under the contract of the libraries: decrypting what \<open>encrypt\<close>
  returns, with the same passphrase, gives the text with every lone surrogate replaced by
  U+FFFD, so the text itself whenever it is well-formed UTF-16. The salt is the next 64
  bytes of the random source and the IV the 16 bytes after them; the key is the 32-byte
  PBKDF2-SHA512 output for the passphrase and the salt with 100000 iterations; the artifact
  is the base64 text of salt, IV, 16-byte tag and ciphertext in this order. \<open>decrypt\<close>
  returns text only when AES-256-GCM decryption, under the key recomputed from the
  passphrase and the first 64 bytes, accepts the tag.
\<close>

theorem encrypt_decrypt_roundtrip:
  assumes "crypto_contract L"
  shows
    "(isWellFormed t \<longrightarrow> decrypt L (fst (encrypt L g t pw)) pw = Inr t) \<and>
     decrypt L (fst (encrypt L g t pw)) pw = Inr (toWellFormed t) \<and>
     (let salt = map g [0..<64];
          iv = map g [64..<80];
          key = pbkdf2_sha512 L pw salt 100000 32;
          sealed = aes_256_gcm_encrypt L key iv (utf8_encode t)
      in length key = 32 \<and> length (snd sealed) = 16 \<and>
         encrypt L g t pw =
           (base64_encode L (salt @ iv @ snd sealed @ fst sealed), \<lambda>i. g (i + 80))) \<and>
     (\<forall>encryptedData pw' plain. decrypt L encryptedData pw' = Inr plain \<longrightarrow>
        (\<exists>bytes.
           aes_256_gcm_decrypt L
             (pbkdf2_sha512 L pw' (take 64 (base64_decode L encryptedData)) 100000 32)
             (take 16 (drop 64 (base64_decode L encryptedData)))
             (take 16 (drop 80 (base64_decode L encryptedData)))
             (drop 96 (base64_decode L encryptedData)) = Some bytes \<and>
           plain = utf8_decode bytes))"
proof -
  have rt: "decrypt L (fst (encrypt L g t pw)) pw = Inr (toWellFormed t)"
    by (rule decrypt_encrypt [OF assms])
  have wf: "isWellFormed t \<longrightarrow> decrypt L (fst (encrypt L g t pw)) pw = Inr t"
    using rt by (simp add: toWellFormed_iff)
  let ?salt = "map g [0..<64]"
  let ?iv = "map g [64..<80]"
  let ?key = "pbkdf2_sha512 L pw ?salt 100000 32"
  let ?sealed = "aes_256_gcm_encrypt L ?key ?iv (utf8_encode t)"
  have s: "fst (randomBytes SALT_LENGTH g) = ?salt"
    by (simp add: randomBytes_def SALT_LENGTH_def)
  have i: "fst (randomBytes IV_LENGTH (snd (randomBytes SALT_LENGTH g))) = ?iv"
    by (simp add: randomBytes_window SALT_LENGTH_def IV_LENGTH_def)
  have r: "snd (randomBytes IV_LENGTH (snd (randomBytes SALT_LENGTH g))) = (\<lambda>i. g (i + 80))"
    by (simp add: randomBytes_rest SALT_LENGTH_def IV_LENGTH_def)
  have key: "length ?key = 32"
    using assms by (simp add: crypto_contract_def)
  have iv: "length ?iv = 16" by simp
  from assms key iv have tag: "length (snd ?sealed) = 16"
    unfolding crypto_contract_def by blast
  have env: "encrypt L g t pw =
      (base64_encode L (?salt @ ?iv @ snd ?sealed @ fst ?sealed), \<lambda>i. g (i + 80))"
    by (simp only: encrypt_envelope s i r ITERATIONS_def KEY_LENGTH_def)
  from rt wf key tag env decrypt_verifies [of L] show ?thesis
    by (simp only: Let_def) blast
qed

theorem encrypt_decrypt_roundtrip_witness:
  "crypto_contract example_lib \<and> isWellFormed (js ''token'') \<and>
   decrypt example_lib
     (fst (encrypt example_lib (\<lambda>i. 0) (js ''token'') (js ''0123456789abcdef'')))
     (js ''0123456789abcdef'') = Inr (js ''token'')"
proof -
  have w: "isWellFormed (js ''token'')"
    by (simp add: isWellFormed_def js_def is_high_def is_low_def)
  from encrypt_decrypt_roundtrip [OF example_contract, of "js ''token''" "\<lambda>i. 0" "js ''0123456789abcdef''"]
    w example_contract
  show ?thesis by blast
qed

lemma toWellFormed_lone_surrogate: "toWellFormed [0xD800] = [0xFFFD]"
  by (simp add: toWellFormed_def scalar_of_def is_high_def)

theorem lone_surrogate_counterexample:
  "decrypt example_lib (fst (encrypt example_lib (\<lambda>i. 0) [0xD800] (js ''0123456789abcdef'')))
     (js ''0123456789abcdef'') = Inr [0xFFFD] \<and>
   decrypt example_lib (fst (encrypt example_lib (\<lambda>i. 0) [0xD800] (js ''0123456789abcdef'')))
     (js ''0123456789abcdef'') \<noteq> Inr [0xD800]"
  by (simp add: decrypt_encrypt [OF example_contract] toWellFormed_lone_surrogate)


section \<open>Loading a corrupted record\<close>

lemma readToken_decrypt_fails:
  "token_entry s user = Some (File encrypted m) \<Longrightarrow> isl (decrypt L encrypted (encryptionKey s)) \<Longrightarrow>
   isl (readToken L s user)"
  by (auto simp: readToken_def readFileSync_def token_entry_def isl_def)

lemma readToken_parse_fails:
  "token_entry s user = Some (File encrypted m) \<Longrightarrow>
   decrypt L encrypted (encryptionKey s) = Inr decrypted \<Longrightarrow> JSON_parse L decrypted = None \<Longrightarrow>
   isl (readToken L s user)"
  by (simp add: readToken_def readFileSync_def token_entry_def)

lemma loadToken_failure:
  assumes "encryptionKey s \<noteq> []" "token_entry s user = Some (File encrypted m)"
    "isl (readToken L s user)"
  shows "loadToken L s user =
           Return None (s\<lparr>disk := AList.delete (tokenPath (TOKENS_DIR s) user) (disk s)\<rparr>)"
  using assms
  by (auto simp: loadToken_def existsSync_def unlinkSync_def token_entry_def isl_def)

lemma loadToken_absent:
  "token_entry s user = None \<Longrightarrow> loadToken L s user = Return None s"
  by (simp add: loadToken_def existsSync_def token_entry_def)

lemma token_entry_deleted:
  "token_entry (s\<lparr>disk := AList.delete (tokenPath (TOKENS_DIR s) user) (disk s)\<rparr>) user = None"
  by (simp add: token_entry_def AList.delete_conv')

lemma token_entry_others:
  "tokenPath (TOKENS_DIR s) user' \<noteq> tokenPath (TOKENS_DIR s) user \<Longrightarrow>
   token_entry (s\<lparr>disk := AList.delete (tokenPath (TOKENS_DIR s) user) (disk s)\<rparr>) user' =
   token_entry s user'"
  by (simp add: token_entry_def AList.delete_conv')

text \<open>
  C2. With a key set and a record file stored for the account, if decrypting the record
  fails or the decrypted text does not parse as JSON, then \<open>loadToken\<close> returns \<open>null\<close>
  without throwing and has removed the record; so \<open>hasToken\<close> returns false, and a second
  \<open>loadToken\<close> finds no record and returns \<open>null\<close> again.
\<close>

theorem loadToken_corrupted:
  assumes key: "encryptionKey s \<noteq> []"
    and entry: "token_entry s user = Some (File encrypted m)"
    and bad: "isl (decrypt L encrypted (encryptionKey s)) \<or>
              (\<exists>decrypted. decrypt L encrypted (encryptionKey s) = Inr decrypted \<and>
                 JSON_parse L decrypted = None)"
  shows "loadToken L s user =
           Return None (s\<lparr>disk := AList.delete (tokenPath (TOKENS_DIR s) user) (disk s)\<rparr>) \<and>
         token_entry (state_of (loadToken L s user)) user = None \<and>
         hasToken L s user =
           Return False (s\<lparr>disk := AList.delete (tokenPath (TOKENS_DIR s) user) (disk s)\<rparr>) \<and>
         loadToken L (state_of (loadToken L s user)) user =
           Return None (state_of (loadToken L s user))"
proof -
  let ?s' = "s\<lparr>disk := AList.delete (tokenPath (TOKENS_DIR s) user) (disk s)\<rparr>"
  from bad have "isl (readToken L s user)"
    using readToken_decrypt_fails [OF entry] readToken_parse_fails [OF entry] by blast
  then have 1: "loadToken L s user = Return None ?s'"
    by (rule loadToken_failure [OF key entry])
  have 2: "token_entry ?s' user = None" by (rule token_entry_deleted)
  have 3: "loadToken L ?s' user = Return None ?s'" by (rule loadToken_absent [OF 2])
  from 1 2 3 show ?thesis by (simp add: hasToken_def)
qed

theorem loadToken_corrupted_witness:
  "encryptionKey keyed_example \<noteq> [] \<and>
   token_entry keyed_example (js ''alice'') = Some (File (js ''AAAA'') 0) \<and>
   isl (decrypt example_lib (js ''AAAA'') (encryptionKey keyed_example)) \<and>
   loadToken example_lib keyed_example (js ''alice'') =
     Return None
       (keyed_example\<lparr>disk :=
          [([], Directory 0),
           ([js ''app''], Directory 0),
           ([js ''app'', js ''data''], Directory 0),
           ([js ''app'', js ''data'', js ''tokens''], Directory 0),
           ([js ''app'', js ''data'', js ''tokens'', js ''sentry.alice.bin''], File [] 1700000000000),
           ([js ''app'', js ''data'', js ''tokens'', js ''notes.txt''], File [] 1700000000000),
           ([js ''app'', js ''data'', js ''tokens'', js ''old.token.bak''], Directory 0)]\<rparr>) \<and>
   hasToken example_lib keyed_example (js ''alice'') =
     Return False
       (keyed_example\<lparr>disk :=
          [([], Directory 0),
           ([js ''app''], Directory 0),
           ([js ''app'', js ''data''], Directory 0),
           ([js ''app'', js ''data'', js ''tokens''], Directory 0),
           ([js ''app'', js ''data'', js ''tokens'', js ''sentry.alice.bin''], File [] 1700000000000),
           ([js ''app'', js ''data'', js ''tokens'', js ''notes.txt''], File [] 1700000000000),
           ([js ''app'', js ''data'', js ''tokens'', js ''old.token.bak''], Directory 0)]\<rparr>)"
proof -
  have k: "encryptionKey keyed_example = js ''0123456789abcdef''"
    by (rule keyed_example_vault(3))
  have k': "encryptionKey keyed_example \<noteq> []"
    by (rule keyed_example_key)
  note e = keyed_example_entry
  have d: "isl (decrypt example_lib (js ''AAAA'') (encryptionKey keyed_example))"
    by (simp add: k example_decrypt_fails)
  have t: "AList.delete (tokenPath (TOKENS_DIR keyed_example) (js ''alice'')) (disk keyed_example) =
     [([], Directory 0),
      ([js ''app''], Directory 0),
      ([js ''app'', js ''data''], Directory 0),
      ([js ''app'', js ''data'', js ''tokens''], Directory 0),
      ([js ''app'', js ''data'', js ''tokens'', js ''sentry.alice.bin''], File [] 1700000000000),
      ([js ''app'', js ''data'', js ''tokens'', js ''notes.txt''], File [] 1700000000000),
      ([js ''app'', js ''data'', js ''tokens'', js ''old.token.bak''], Directory 0)]"
    by (simp add: keyed_example_vault example_tokenPath example_disk_def AList.delete_eq)
      (simp add: js_def)
  from loadToken_corrupted [OF k' e disjI1 [OF d]] k' e d t
  show ?thesis by simp
qed

section \<open>Scheduling twice\<close>

text \<open>
  C3, as the code has it. Let the scheduler's timers be registered (as they are when the
  module has been loaded, and as \<open>scheduleReconnect\<close> leaves them) and the account's
  token path not be a directory. The first call of \<open>scheduleReconnect\<close> returns, and a
  second call for the same account changes no state. If a reconnect was pending, or the
  account is eligible (a saved token, a non-empty \<open>sharedSecret\<close>, or \<open>guardType\<close>
  \<open>'none'\<close>), then after the calls the account name has exactly one armed timer and a
  pending-reconnect record, and the second call changes no state whatever account record
  of that name it is given. For an account that is not eligible and had no reconnect
  pending, no timer is armed for the name after the calls and no record is added.
\<close>

theorem scheduleReconnect_idempotent:
  assumes "timers_registered s" and "not_a_directory s (username a)"
    and "username a' = username a"
  shows
    "\<exists>s1. scheduleReconnect L s a = Return () s1 \<and>
       scheduleReconnect L s1 a = Return () s1 \<and>
       timers_registered s1 \<and>
       (reconnectTimers s (username a) \<noteq> None \<or> has_saved_token L s (username a) \<or>
        has_sharedSecret a \<or> guardType a = Some GuardNone \<longrightarrow>
          scheduleReconnect L s1 a' = Return () s1 \<and>
          length (armed s1 (username a)) = 1 \<and>
          reconnectTimers s1 (username a) \<noteq> None \<and>
          accountsToReconnect s1 (username a) \<noteq> None) \<and>
       (\<not> (reconnectTimers s (username a) \<noteq> None \<or> has_saved_token L s (username a) \<or>
           has_sharedSecret a \<or> guardType a = Some GuardNone) \<longrightarrow>
          armed s1 (username a) = [] \<and>
          reconnectTimers s1 (username a) = None \<and>
          accountsToReconnect s1 (username a) = accountsToReconnect s (username a))"
proof -
  from scheduleReconnect_effect [OF assms(2), of L] obtain s1 where
    r: "scheduleReconnect L s a = Return () s1"
    and yes: "reconnectTimers s (username a) = None \<and>
       (tokenExists L s (username a) \<or> has_sharedSecret a \<or> guardType a = Some GuardNone) \<longrightarrow>
         timeouts s1 = timeouts s @ [(nextTimeout s, a)] \<and>
         reconnectTimers s1 = (reconnectTimers s)(username a \<mapsto> nextTimeout s) \<and>
         accountsToReconnect s1 = (accountsToReconnect s)(username a \<mapsto> a)"
    and no: "\<not> (reconnectTimers s (username a) = None \<and>
       (tokenExists L s (username a) \<or> has_sharedSecret a \<or> guardType a = Some GuardNone)) \<longrightarrow>
         timeouts s1 = timeouts s \<and> reconnectTimers s1 = reconnectTimers s \<and>
         accountsToReconnect s1 = accountsToReconnect s"
    by blast
  from scheduleReconnect_again [of L s a] r
  have again: "scheduleReconnect L s1 a = Return () s1" by simp
  from scheduleReconnect_keeps_registered [OF assms(1), of L a] r
  have reg: "timers_registered s1" by simp
  have one: "length (armed s1 (username a)) = 1 \<and> accountsToReconnect s1 (username a) \<noteq> None"
    if "reconnectTimers s1 (username a) \<noteq> None"
    using that by (rule registered_armed(2) [OF reg])
  have pending: "reconnectTimers s1 (username a) \<noteq> None"
    if "reconnectTimers s (username a) \<noteq> None \<or> has_saved_token L s (username a) \<or>
        has_sharedSecret a \<or> guardType a = Some GuardNone"
  proof (cases "reconnectTimers s (username a) = None")
    case True
    with that yes have "reconnectTimers s1 = (reconnectTimers s)(username a \<mapsto> nextTimeout s)"
      by (simp add: tokenExists_saved)
    then show ?thesis by simp
  next
    case False
    with no show ?thesis by simp
  qed
  have other: "scheduleReconnect L s1 a' = Return () s1"
    if "reconnectTimers s1 (username a) \<noteq> None"
    using that by (simp add: scheduleReconnect_pending assms(3))
  have none: "armed s1 (username a) = [] \<and> reconnectTimers s1 (username a) = None \<and>
      accountsToReconnect s1 (username a) = accountsToReconnect s (username a)"
    if "\<not> (reconnectTimers s (username a) \<noteq> None \<or> has_saved_token L s (username a) \<or>
           has_sharedSecret a \<or> guardType a = Some GuardNone)"
  proof -
    from that have unset: "reconnectTimers s (username a) = None" by simp
    from that no have same: "timeouts s1 = timeouts s" "reconnectTimers s1 = reconnectTimers s"
      "accountsToReconnect s1 = accountsToReconnect s"
      by (simp_all add: tokenExists_saved)
    from unset have "armed s (username a) = []"
      by (rule registered_armed(1) [OF assms(1)])
    with same unset show ?thesis by (simp add: armed_def)
  qed
  from r again reg one pending other none show ?thesis
    by (intro exI [of _ s1] conjI impI) blast+
qed

theorem scheduleReconnect_idempotent_witness:
  "timers_registered sweep_example \<and> not_a_directory sweep_example (username bob) \<and>
   username (bob\<lparr>guardType := Some GuardMobile\<rparr>) = username bob \<and>
   guardType bob = Some GuardNone \<and>
   length (armed (state_of (scheduleReconnect example_lib sweep_example bob)) (username bob)) = 1 \<and>
   accountsToReconnect (state_of (scheduleReconnect example_lib sweep_example bob)) (username bob)
     \<noteq> None \<and>
   scheduleReconnect example_lib (state_of (scheduleReconnect example_lib sweep_example bob))
     (bob\<lparr>guardType := Some GuardMobile\<rparr>) =
     Return () (state_of (scheduleReconnect example_lib sweep_example bob))"
proof -
  have n: "username (bob\<lparr>guardType := Some GuardMobile\<rparr>) = username bob" by simp
  have g: "guardType bob = Some GuardNone" by (simp add: bob_def example_account_def)
  from scheduleReconnect_idempotent [OF sweep_example_registered bob_not_directory n,
      of example_lib] g
  obtain s1 where "scheduleReconnect example_lib sweep_example bob = Return () s1"
    and "scheduleReconnect example_lib s1 (bob\<lparr>guardType := Some GuardMobile\<rparr>) = Return () s1"
    and "length (armed s1 (username bob)) = 1"
    and "accountsToReconnect s1 (username bob) \<noteq> None"
    by blast
  with sweep_example_registered bob_not_directory g show ?thesis by simp
qed

theorem ineligible_twice_counterexample:
  "reconnectTimers sweep_example (username dave) = None \<and>
   armed
     (state_of (scheduleReconnect example_lib
        (state_of (scheduleReconnect example_lib sweep_example dave)) dave))
     (username dave) = [] \<and>
   accountsToReconnect
     (state_of (scheduleReconnect example_lib
        (state_of (scheduleReconnect example_lib sweep_example dave)) dave))
     (username dave) = None"
proof -
  have p: "reconnectTimers sweep_example (username dave) = None"
    by (simp add: sweep_example_no_timers)
  have i: "\<not> canAutoReconnect False dave"
    by (simp add: canAutoReconnect_def dave_def example_account_def has_sharedSecret_def)
  have "scheduleReconnect example_lib sweep_example dave = Return () sweep_example"
    by (rule scheduleReconnect_ineligible [OF p sweep_example_hasToken i])
  then show ?thesis by (simp add: p armed_def sweep_example_no_timers)
qed

section \<open>Eligibility for an unattended reconnect\<close>

text \<open>
  C4. For an account with no pending reconnect (and whose token path is not a directory,
  so that the file operations of \<open>hasToken\<close> do not throw), \<open>scheduleReconnect\<close> returns,
  and it arms a timer and records the pending reconnect exactly when the account has a
  saved token (the record at its token path decrypts under the key that is set to a JSON
  text with a truthy \<open>refreshToken\<close>), or the account has a non-empty \<open>sharedSecret\<close>, or
  its \<open>guardType\<close> is \<open>'none'\<close>; for any other account the timers, \<open>reconnectTimers\<close>
  and \<open>accountsToReconnect\<close> are as before.
\<close>

theorem scheduleReconnect_eligibility:
  assumes "reconnectTimers s (username a) = None" and "not_a_directory s (username a)"
  shows
    "returns (scheduleReconnect L s a) \<and>
     (reconnectTimers (state_of (scheduleReconnect L s a)) (username a) \<noteq> None \<longleftrightarrow>
        has_saved_token L s (username a) \<or> has_sharedSecret a \<or> guardType a = Some GuardNone) \<and>
     (timeouts (state_of (scheduleReconnect L s a)) \<noteq> timeouts s \<longleftrightarrow>
        has_saved_token L s (username a) \<or> has_sharedSecret a \<or> guardType a = Some GuardNone) \<and>
     (has_saved_token L s (username a) \<or> has_sharedSecret a \<or> guardType a = Some GuardNone \<longrightarrow>
        timeouts (state_of (scheduleReconnect L s a)) = timeouts s @ [(nextTimeout s, a)] \<and>
        reconnectTimers (state_of (scheduleReconnect L s a)) =
          (reconnectTimers s)(username a \<mapsto> nextTimeout s) \<and>
        accountsToReconnect (state_of (scheduleReconnect L s a)) =
          (accountsToReconnect s)(username a \<mapsto> a)) \<and>
     (\<not> (has_saved_token L s (username a) \<or> has_sharedSecret a \<or> guardType a = Some GuardNone) \<longrightarrow>
        timeouts (state_of (scheduleReconnect L s a)) = timeouts s \<and>
        reconnectTimers (state_of (scheduleReconnect L s a)) = reconnectTimers s \<and>
        accountsToReconnect (state_of (scheduleReconnect L s a)) = accountsToReconnect s)"
proof -
  from hasToken_returns [OF assms(2), of L] obtain b s1
    where h: "hasToken L s (username a) = Return b s1"
    by (cases "hasToken L s (username a)") auto
  note fr = hasToken_Return_frame [OF h]
  have b: "has_saved_token L s (username a) = b"
    using tokenExists_Return [OF h] by (simp add: tokenExists_saved)
  show ?thesis
  proof (cases "canAutoReconnect b a")
    case True
    from scheduleReconnect_eligible [OF assms(1) h True] True
    show ?thesis by (simp add: b fr canAutoReconnect_def)
  next
    case False
    from scheduleReconnect_ineligible [OF assms(1) h False] False assms(1)
    show ?thesis by (simp add: b fr canAutoReconnect_def)
  qed
qed

theorem scheduleReconnect_eligibility_witness:
  "reconnectTimers saved_example (username alice_mobile) = None \<and>
   not_a_directory saved_example (username alice_mobile) \<and>
   has_saved_token example_lib saved_example (username alice_mobile) \<and>
   \<not> has_sharedSecret alice_mobile \<and> guardType alice_mobile = Some GuardMobile \<and>
   timeouts (state_of (scheduleReconnect example_lib saved_example alice_mobile)) =
     [(0, alice_mobile)] \<and>
   reconnectTimers (state_of (scheduleReconnect example_lib saved_example alice_mobile))
     (username alice_mobile) = Some 0 \<and>
   accountsToReconnect (state_of (scheduleReconnect example_lib saved_example alice_mobile))
     (username alice_mobile) = Some alice_mobile"
proof -
  have p: "reconnectTimers saved_example (username alice_mobile) = None"
    by (simp add: saved_example_no_timers)
  have nd: "not_a_directory saved_example (username alice_mobile)"
    by (simp add: username_alice_mobile saved_example_alice)
  have t: "has_saved_token example_lib saved_example (username alice_mobile)"
    by (simp add: username_alice_mobile saved_example_holds)
  have g: "\<not> has_sharedSecret alice_mobile" "guardType alice_mobile = Some GuardMobile"
    by (simp_all add: alice_mobile_def example_account_def has_sharedSecret_def)
  from scheduleReconnect_eligibility [OF p nd, of example_lib] p nd t g
  show ?thesis by (simp add: saved_example_no_timers)
qed

section \<open>One credential path\<close>

text \<open>
  C5. Where the account's token path is not a directory, \<open>login\<close> reaches \<open>logOn\<close>, and
  the options it passes come from one credential path. If the account has a saved token
  (\<open>hasToken\<close> is true) they hold that token as \<open>refreshToken\<close> and neither
  \<open>accountName\<close>, \<open>password\<close> nor \<open>twoFactorCode\<close>. Otherwise they hold the account's
  name and password and no \<open>refreshToken\<close>, and a \<open>twoFactorCode\<close>, the code generated
  from the secret, exactly when the account has a non-empty \<open>sharedSecret\<close>.
\<close>

theorem login_credentials:
  assumes "not_a_directory s (username a)"
  shows
    "\<exists>opts s'. login_logOn L s a = Return opts s' \<and>
       (tokenExists L s (username a) \<longrightarrow>
          opt_refreshToken opts \<noteq> None \<and>
          value_of (loadToken L s (username a)) = Some (opt_refreshToken opts) \<and>
          opt_accountName opts = None \<and> opt_password opts = None \<and>
          opt_twoFactorCode opts = None) \<and>
       (\<not> tokenExists L s (username a) \<longrightarrow>
          opt_refreshToken opts = None \<and>
          opt_accountName opts = Some (username a) \<and>
          opt_password opts = Some (password a) \<and>
          (opt_twoFactorCode opts \<noteq> None \<longleftrightarrow> has_sharedSecret a) \<and>
          (\<forall>secret. sharedSecret a = Some secret \<longrightarrow> secret \<noteq> [] \<longrightarrow>
             opt_twoFactorCode opts = Some (generateAuthCode L secret)))"
proof -
  from login_logOn_shape [of s L a] obtain s2 where
    v: "disk s2 = disk s" "encryptionKey s2 = encryptionKey s" "TOKENS_DIR s2 = TOKENS_DIR s" and
    l: "login_logOn L s a =
       (case loadToken L s2 (username a) of
          Throw e s3 \<Rightarrow> Throw e s3
        | Return savedToken s3 \<Rightarrow>
            if savedToken \<noteq> None
            then Return (initial_options\<lparr>opt_refreshToken := savedToken\<rparr>) s3
            else
              Return
                (initial_options
                   \<lparr>opt_accountName := Some (username a),
                    opt_password := Some (password a),
                    opt_twoFactorCode :=
                      (case sharedSecret a of
                         None \<Rightarrow> None
                       | Some secret \<Rightarrow>
                           if secret \<noteq> [] then Some (generateAuthCode L secret) else None)\<rparr>)
                s3)"
    by blast
  note c = loadToken_cong [OF v, of L "username a"]
  from loadToken_returns [OF assms, of L] c(2) obtain savedToken s3
    where r: "loadToken L s2 (username a) = Return savedToken s3"
    by (cases "loadToken L s2 (username a)") auto
  with c(1) have val: "value_of (loadToken L s (username a)) = Some savedToken" by simp
  then have te: "tokenExists L s (username a) \<longleftrightarrow> savedToken \<noteq> None"
    by (auto simp: tokenExists_iff)
  show ?thesis
  proof (cases "savedToken = None")
    case True
    with l r te show ?thesis
      by (auto simp: initial_options_def has_sharedSecret_def split: option.splits)
  next
    case False
    with l r te val show ?thesis
      by (simp add: initial_options_def)
  qed
qed


theorem login_credentials_witness:
  "not_a_directory saved_example (username alice) \<and>
   tokenExists example_lib saved_example (username alice) \<and>
   (\<exists>opts s'. login_logOn example_lib saved_example alice = Return opts s' \<and>
      opt_refreshToken opts = Some (JStr (js ''refresh-token'')) \<and>
      opt_accountName opts = None \<and> opt_password opts = None \<and> opt_twoFactorCode opts = None)"
proof -
  have nd: "not_a_directory saved_example (username alice)"
    using loadToken_Some_file [OF saved_example_loadToken] by (simp add: username_alice)
  have te: "tokenExists example_lib saved_example (username alice)"
    by (simp add: tokenExists_iff username_alice saved_example_loadToken)
  from login_credentials [OF nd, of example_lib] te nd
  show ?thesis by (auto simp: username_alice saved_example_loadToken)
qed


section \<open>The error event\<close>

text \<open>
  C6, as the code has it. When the \<open>error\<close> event reaches a login attempt (the account's
  token path not being a directory, so that no file operation throws) the handler
  returns, and: the account is removed from \<open>activeClients\<close>; the attempt's timeout is
  cleared and its handlers are detached, and the promise is resolved with failure and the
  message, unless it had been resolved before; if the message names an invalid or expired
  credential the token record is gone, and otherwise it stays as it was, except where
  \<open>scheduleReconnect\<close> finds a record that holds no token and \<open>loadToken\<close> removes it;
  \<open>scheduleReconnect\<close> is called exactly for a transient message, so a timer is armed
  and the reconnect recorded exactly when the message is transient, no reconnect is
  pending, and the account is eligible: it has a saved token that the handler did not
  just delete, or a non-empty \<open>sharedSecret\<close>, or \<open>guardType\<close> \<open>'none'\<close>. In every other
  case the scheduler's timers and maps are as before.
\<close>

theorem on_error_effect:
  assumes "not_a_directory s (username a)" and "attempt_account att = a"
  shows
    "\<exists>att' s'. on_error L s att message = Return att' s' \<and>
       activeClients s' (username a) = None \<and>
       resolution att' = Some (case resolution att of None \<Rightarrow> Failure message | Some r \<Rightarrow> r) \<and>
       \<not> timeoutArmed att' \<and> \<not> listening att' \<and>
       (credential_invalid message \<longrightarrow> token_entry s' (username a) = None) \<and>
       (\<not> credential_invalid message \<longrightarrow>
          token_entry s' (username a) = token_entry s (username a) \<or>
          transient message \<and> \<not> has_saved_token L s (username a) \<and>
          token_entry s' (username a) = None) \<and>
       (transient message \<and> reconnectTimers s (username a) = None \<and>
        (\<not> credential_invalid message \<and> has_saved_token L s (username a) \<or> has_sharedSecret a \<or>
         guardType a = Some GuardNone) \<longrightarrow>
          timeouts s' = timeouts s @ [(nextTimeout s, a)] \<and>
          reconnectTimers s' = (reconnectTimers s)(username a \<mapsto> nextTimeout s) \<and>
          accountsToReconnect s' = (accountsToReconnect s)(username a \<mapsto> a)) \<and>
       (\<not> (transient message \<and> reconnectTimers s (username a) = None \<and>
           (\<not> credential_invalid message \<and> has_saved_token L s (username a) \<or> has_sharedSecret a \<or>
            guardType a = Some GuardNone)) \<longrightarrow>
          timeouts s' = timeouts s \<and> reconnectTimers s' = reconnectTimers s \<and>
          accountsToReconnect s' = accountsToReconnect s)"
proof -
  let ?att' = "resolve (Failure message) (att\<lparr>timeoutArmed := False, listening := False\<rparr>)"
  note res = resolve_detached [of "Failure message" att]
  from on_error_steps [OF assms(1,2), of L message] obtain s2 where
    step: "on_error L s att message =
       (case (if transient message then scheduleReconnect L s2 a else Return () s2) of
          Throw e s3 \<Rightarrow> Throw e s3
        | Return u' s3 \<Rightarrow> Return ?att' s3)"
    and nd2: "not_a_directory s2 (username a)"
    and ac: "activeClients s2 (username a) = None"
    and fr: "reconnectTimers s2 = reconnectTimers s" "timeouts s2 = timeouts s"
      "nextTimeout s2 = nextTimeout s" "accountsToReconnect s2 = accountsToReconnect s"
    and te: "token_entry s2 (username a) =
      (if credential_invalid message then None else token_entry s (username a))"
    and ex: "tokenExists L s2 (username a) =
      (\<not> credential_invalid message \<and> has_saved_token L s (username a))"
    unfolding tokenExists_saved [of L s] by blast
  show ?thesis
  proof (cases "transient message")
    case False
    with step have "on_error L s att message = Return ?att' s2" by simp
    with False res ac fr te show ?thesis by (intro exI [of _ ?att'] exI [of _ s2]) simp
  next
    case True
    from scheduleReconnect_effect [OF nd2, of L] obtain s3 where
      r: "scheduleReconnect L s2 a = Return () s3"
      and ac3: "activeClients s3 = activeClients s2"
      and te3: "token_entry s3 (username a) = token_entry s2 (username a) \<or>
         \<not> tokenExists L s2 (username a) \<and> token_entry s3 (username a) = None"
      and yes: "reconnectTimers s2 (username a) = None \<and>
         (tokenExists L s2 (username a) \<or> has_sharedSecret a \<or> guardType a = Some GuardNone) \<longrightarrow>
           timeouts s3 = timeouts s2 @ [(nextTimeout s2, a)] \<and>
           reconnectTimers s3 = (reconnectTimers s2)(username a \<mapsto> nextTimeout s2) \<and>
           accountsToReconnect s3 = (accountsToReconnect s2)(username a \<mapsto> a)"
      and no: "\<not> (reconnectTimers s2 (username a) = None \<and>
         (tokenExists L s2 (username a) \<or> has_sharedSecret a \<or> guardType a = Some GuardNone)) \<longrightarrow>
           timeouts s3 = timeouts s2 \<and> reconnectTimers s3 = reconnectTimers s2 \<and>
           accountsToReconnect s3 = accountsToReconnect s2"
      by blast
    from step True r have o: "on_error L s att message = Return ?att' s3" by simp
    have 1: "activeClients s3 (username a) = None" using ac ac3 by simp
    have 2: "credential_invalid message \<longrightarrow> token_entry s3 (username a) = None"
      using te3 te by auto
    have 3: "\<not> credential_invalid message \<longrightarrow>
          token_entry s3 (username a) = token_entry s (username a) \<or>
          transient message \<and> \<not> has_saved_token L s (username a) \<and>
          token_entry s3 (username a) = None"
      using te3 te ex True by auto
    have 4: "transient message \<and> reconnectTimers s (username a) = None \<and>
        (\<not> credential_invalid message \<and> has_saved_token L s (username a) \<or> has_sharedSecret a \<or>
         guardType a = Some GuardNone) \<longrightarrow>
          timeouts s3 = timeouts s @ [(nextTimeout s, a)] \<and>
          reconnectTimers s3 = (reconnectTimers s)(username a \<mapsto> nextTimeout s) \<and>
          accountsToReconnect s3 = (accountsToReconnect s)(username a \<mapsto> a)"
      using yes unfolding fr ex by blast
    have 5: "\<not> (transient message \<and> reconnectTimers s (username a) = None \<and>
           (\<not> credential_invalid message \<and> has_saved_token L s (username a) \<or> has_sharedSecret a \<or>
            guardType a = Some GuardNone)) \<longrightarrow>
          timeouts s3 = timeouts s \<and> reconnectTimers s3 = reconnectTimers s \<and>
          accountsToReconnect s3 = accountsToReconnect s"
      using no True unfolding fr ex by blast
    from o res 1 2 3 4 5 show ?thesis
      by (intro exI [of _ ?att'] exI [of _ s3] conjI) blast+
  qed
qed

lemma example_messages:
  "transient (js ''LoggedInElsewhere'')" "\<not> credential_invalid (js ''LoggedInElsewhere'')"
  "transient (js ''RateLimitExceeded'')" "\<not> credential_invalid (js ''RateLimitExceeded'')"
  by (simp_all add: transient_def credential_invalid_def js_def)

theorem on_error_effect_witness:
  "not_a_directory sweep_example (username bob) \<and> attempt_account bob_attempt = bob \<and>
   transient (js ''LoggedInElsewhere'') \<and> guardType bob = Some GuardNone \<and>
   (\<exists>att' s'. on_error example_lib sweep_example bob_attempt (js ''LoggedInElsewhere'') =
        Return att' s' \<and>
      resolution att' = Some (Failure (js ''LoggedInElsewhere'')) \<and>
      activeClients s' (username bob) = None \<and>
      timeouts s' = [(0, bob)] \<and>
      reconnectTimers s' (username bob) = Some 0 \<and>
      accountsToReconnect s' (username bob) = Some bob)"
proof -
  have a: "attempt_account bob_attempt = bob" "resolution bob_attempt = None"
    by (simp_all add: bob_attempt_def)
  have g: "guardType bob = Some GuardNone" by (simp add: bob_def example_account_def)
  from on_error_effect [OF bob_not_directory a(1), of example_lib "js ''LoggedInElsewhere''"]
  obtain att' s' where
    "on_error example_lib sweep_example bob_attempt (js ''LoggedInElsewhere'') = Return att' s'"
    and "activeClients s' (username bob) = None"
    and "resolution att' = Some (Failure (js ''LoggedInElsewhere''))"
    and "timeouts s' = [(0, bob)]"
    and "reconnectTimers s' (username bob) = Some 0"
    and "accountsToReconnect s' (username bob) = Some bob"
    using g by (auto simp: example_messages a sweep_example_no_timers)
  with bob_not_directory a(1) g example_messages(1) show ?thesis by blast
qed

theorem transient_error_ineligible_counterexample:
  "transient (js ''RateLimitExceeded'') \<and>
   timeouts (state_of (on_error example_lib sweep_example dave_attempt (js ''RateLimitExceeded''))) = [] \<and>
   reconnectTimers
     (state_of (on_error example_lib sweep_example dave_attempt (js ''RateLimitExceeded'')))
     (username dave) = None \<and>
   accountsToReconnect
     (state_of (on_error example_lib sweep_example dave_attempt (js ''RateLimitExceeded'')))
     (username dave) = None"
proof -
  let ?s1 =
    "sweep_example\<lparr>activeClients := (activeClients sweep_example)(username dave := None)\<rparr>"
  have p: "reconnectTimers ?s1 (username dave) = None"
    by (simp add: sweep_example_no_timers)
  have h: "hasToken example_lib ?s1 (username dave) = Return False ?s1"
    by (simp add: hasToken_def loadToken_def sweep_example_def initial_state_def)
  have i: "\<not> canAutoReconnect False dave"
    by (simp add: canAutoReconnect_def dave_def example_account_def has_sharedSecret_def)
  have "scheduleReconnect example_lib ?s1 dave = Return () ?s1"
    by (rule scheduleReconnect_ineligible [OF p h i])
  then have "state_of (on_error example_lib sweep_example dave_attempt (js ''RateLimitExceeded'')) = ?s1"
    by (simp add: on_error_def dave_attempt_def example_messages Let_def)
  then show ?thesis by (simp add: example_messages sweep_example_no_timers)
qed

section \<open>The vault without a key\<close>

lemma saveToken_no_key: "encryptionKey s = [] \<Longrightarrow> saveToken L now s user token = Return () s"
  by (simp add: saveToken_def)

lemma loadToken_no_key: "encryptionKey s = [] \<Longrightarrow> loadToken L s user = Return None s"
  by (simp add: loadToken_def)

text \<open>
  C7, as the code has it. With no encryption key set, \<open>saveToken\<close> returns at once and
  leaves the state as it is, and \<open>loadToken\<close> returns \<open>null\<close> whatever the file system
  holds, reading nothing. \<open>deleteToken\<close> has no test on the key: it leaves the state
  unchanged only where the account has no record, and removes a record that exists.
\<close>

theorem vault_without_key:
  assumes "encryptionKey s = []"
  shows "saveToken L now s user token = Return () s \<and>
         (\<forall>d. loadToken L (s\<lparr>disk := d\<rparr>) user = Return None (s\<lparr>disk := d\<rparr>)) \<and>
         (token_entry s user = None \<longrightarrow> deleteToken s user = Return () s) \<and>
         (\<forall>c m. token_entry s user = Some (File c m) \<longrightarrow>
            deleteToken s user =
              Return () (s\<lparr>disk := AList.delete (tokenPath (TOKENS_DIR s) user) (disk s)\<rparr>) \<and>
            token_entry (state_of (deleteToken s user)) user = None)"
  using assms
  by (simp add: saveToken_no_key loadToken_no_key deleteToken_absent deleteToken_file
      token_entry_def AList.delete_conv')

theorem vault_without_key_witness:
  "encryptionKey sweep_example = [] \<and>
   saveToken example_lib 0 sweep_example (js ''alice'') (js ''token'') = Return () sweep_example \<and>
   loadToken example_lib sweep_example (js ''alice'') = Return None sweep_example \<and>
   token_entry sweep_example (js ''alice'') = Some (File (js ''AAAA'') 0) \<and>
   token_entry (state_of (deleteToken sweep_example (js ''alice''))) (js ''alice'') = None"
proof -
  have k: "encryptionKey sweep_example = []"
    by (simp add: sweep_example_def initial_state_def)
  note e = sweep_example_entries(1)
  have "sweep_example\<lparr>disk := disk sweep_example\<rparr> = sweep_example" by simp
  with vault_without_key [OF k, of example_lib 0 "js ''alice''" "js ''token''"] k e
  show ?thesis by (metis)
qed

theorem deleteToken_without_key_counterexample:
  "encryptionKey sweep_example = [] \<and>
   token_entry sweep_example (js ''alice'') \<noteq> None \<and>
   token_entry (state_of (deleteToken sweep_example (js ''alice''))) (js ''alice'') = None \<and>
   state_of (deleteToken sweep_example (js ''alice'')) \<noteq> sweep_example"
proof -
  have k: "encryptionKey sweep_example = []"
    by (simp add: sweep_example_def initial_state_def)
  note e = sweep_example_entries(1)
  have g: "token_entry (state_of (deleteToken sweep_example (js ''alice''))) (js ''alice'') = None"
    by (simp add: deleteToken_file [OF e] token_entry_def AList.delete_conv')
  from e g have "state_of (deleteToken sweep_example (js ''alice'')) \<noteq> sweep_example"
    by auto
  with k e g show ?thesis by simp
qed


section \<open>The activities submitted\<close>

lemma fst_pushAppIds: "fst (pushAppIds L appIds (gs, names)) = gs @ map Steam appIds"
  by (induction appIds arbitrary: gs names) simp_all

lemma length_snd_pushAppIds:
  "length (snd (pushAppIds L appIds (gs, names))) = length names + length appIds"
  by (induction appIds arbitrary: gs names) simp_all

lemma set_numbers: "n \<in> set (numbers gs) \<longleftrightarrow> AppId n \<in> set gs"
  by (induction gs rule: numbers.induct) auto

lemma find_isString_cases:
  "find isString gs = None \<or> (\<exists>label. find isString gs = Some (Custom label))"
proof (cases "find isString gs")
  case None
  then show ?thesis by simp
next
  case (Some g)
  then have "isString g" by (auto simp: find_Some_iff)
  then obtain label where "g = Custom label" by (cases g) auto
  with Some show ?thesis by simp
qed

lemma gamesToPlay_label:
  "find isString gs = Some (Custom label) \<Longrightarrow> label \<noteq> [] \<Longrightarrow>
   fst (gamesToPlay L gs) = NonSteam (js ''15190414816125648896'') label # map Steam (numbers gs)"
  by (simp add: gamesToPlay_def fst_pushAppIds)

lemma gamesToPlay_no_label:
  "find isString gs = None \<or> find isString gs = Some (Custom []) \<Longrightarrow>
   fst (gamesToPlay L gs) = map Steam (numbers gs)"
  by (auto simp: gamesToPlay_def fst_pushAppIds)

lemma gamesToPlay_lib: "fst (gamesToPlay L gs) = fst (gamesToPlay L' gs)"
  by (simp add: gamesToPlay_def fst_pushAppIds)

lemma Steam_in_gamesToPlay: "Steam n \<in> set (fst (gamesToPlay L gs)) \<longleftrightarrow> AppId n \<in> set gs"
  using find_isString_cases [of gs]
  by (auto simp: gamesToPlay_def fst_pushAppIds set_numbers split: if_splits)

text \<open>
  C8, as the code has it. The list given to \<open>gamesPlayed\<close> by \<open>playGames\<close> and
  \<open>updateGames\<close> is: one synthetic entry for the first string-typed selector when that
  selector is not the empty string (the code tests \<open>if (customGame)\<close>), and none when
  there is no string-typed selector or the first one is empty; then every numeric selector,
  in order, as its AppID. Later string selectors never appear. The list does not depend on
  what the name lookups return.
\<close>

theorem games_submitted:
  "(\<forall>label. find isString gs = Some (Custom label) \<longrightarrow> label \<noteq> [] \<longrightarrow>
      fst (gamesToPlay L gs) =
        NonSteam (js ''15190414816125648896'') label # map Steam (numbers gs)) \<and>
   (find isString gs = None \<or> find isString gs = Some (Custom []) \<longrightarrow>
      fst (gamesToPlay L gs) = map Steam (numbers gs)) \<and>
   (\<forall>n. Steam n \<in> set (fst (gamesToPlay L gs)) \<longleftrightarrow> AppId n \<in> set gs) \<and>
   fst (gamesToPlay L gs) = fst (gamesToPlay L' gs) \<and>
   playing (playGames L steamUser a) = fst (gamesToPlay L (games a)) \<and>
   (\<forall>client. activeClients s user = Some client \<longrightarrow>
      fst (updateGames L s user gs) \<and>
      map_option playing (activeClients (snd (updateGames L s user gs)) user) =
        Some (fst (gamesToPlay L gs)))"
  using gamesToPlay_label [of gs _ L] gamesToPlay_no_label [of gs L] gamesToPlay_lib [of L gs L']
    Steam_in_gamesToPlay [of _ L gs]
  by (simp add: playGames_def updateGames_def)

theorem games_submitted_witness:
  "find isString [AppId 730, Custom (js ''t.me/sensejke''), Custom (js ''x''), AppId 570] =
     Some (Custom (js ''t.me/sensejke'')) \<and>
   js ''t.me/sensejke'' \<noteq> [] \<and>
   fst (gamesToPlay example_lib
          [AppId 730, Custom (js ''t.me/sensejke''), Custom (js ''x''), AppId 570]) =
     [NonSteam (js ''15190414816125648896'') (js ''t.me/sensejke''), Steam 730, Steam 570]"
proof -
  let ?gs = "[AppId 730, Custom (js ''t.me/sensejke''), Custom (js ''x''), AppId 570]"
  have f: "find isString ?gs = Some (Custom (js ''t.me/sensejke''))" by simp
  have n: "js ''t.me/sensejke'' \<noteq> []" by (simp add: js_def)
  from games_submitted [of ?gs example_lib] f n
  have "fst (gamesToPlay example_lib ?gs) =
          NonSteam (js ''15190414816125648896'') (js ''t.me/sensejke'') # map Steam (numbers ?gs)"
    by blast
  with f n show ?thesis by simp
qed

theorem empty_label_counterexample:
  "find isString [AppId 730, Custom [], Custom (js ''My Game'')] = Some (Custom []) \<and>
   fst (gamesToPlay example_lib [AppId 730, Custom [], Custom (js ''My Game'')]) = [Steam 730]"
  by (simp add: gamesToPlay_def fst_pushAppIds)


section \<open>The cache sweep\<close>

lemma map_of_filter_key:
  "P k \<Longrightarrow> map_of (filter (\<lambda>e. P (fst e)) d) k = map_of d k"
  by (induction d) auto

lemma unlinkSync_other:
  "unlinkSync d p = Inr d' \<Longrightarrow> q \<noteq> p \<Longrightarrow> map_of d' q = map_of d q"
  by (auto simp: unlinkSync_def delete_conv' split: option.splits node.splits)

lemma rmSync_other:
  assumes "rmSync d p = Inr d'" and "take (length p) q \<noteq> p"
  shows "map_of d' q = map_of d q"
proof -
  from assms(1) have "d' = filter (\<lambda>e. take (length p) (fst e) \<noteq> p) d"
    by (auto simp: rmSync_def split: option.splits)
  with map_of_filter_key [of "\<lambda>k. take (length p) k \<noteq> p" q d] assms(2)
  show ?thesis by simp
qed

lemma cleanCache_loop_token_entries:
  assumes "js_endsWith name (js ''.token'')"
  shows "list_all valid_name files \<Longrightarrow>
         map_of (state_of (cleanCache_loop now dir files d n)) (dir @ [name]) =
         map_of d (dir @ [name])"
proof (induction files arbitrary: d n)
  case Nil
  show ?case by simp
next
  case (Cons f files)
  then have valid: "valid_name f" and rest: "list_all valid_name files" by simp_all
  note IH = Cons.IH [OF rest]
  have p: "path_join dir f = dir @ [f]" by (rule path_join_name [OF valid])
  show ?case
  proof (cases "statSync d (dir @ [f])")
    case (Inl e)
    then show ?thesis by (simp add: p)
  next
    case (Inr stat)
    show ?thesis
    proof (cases "js_endsWith f (js ''.token'')")
      case True
      with Inr show ?thesis by (simp add: p IH)
    next
      case False
      with assms have ne: "f \<noteq> name" by auto
      show ?thesis
      proof (cases "isCacheFile f \<or> isOld now stat")
        case keep: False
        with Inr False show ?thesis by (simp add: p IH)
      next
        case remove: True
        show ?thesis
        proof (cases "if isDirectory stat then rmSync d (dir @ [f]) else unlinkSync d (dir @ [f])")
          case failed: (Inl e)
          with Inr False remove show ?thesis by (simp add: p IH)
        next
          case removed: (Inr d')
          have "map_of d' (dir @ [name]) = map_of d (dir @ [name])"
          proof (cases "isDirectory stat")
            case True
            with removed have "rmSync d (dir @ [f]) = Inr d'" by simp
            then show ?thesis by (rule rmSync_other) (simp add: ne [symmetric])
          next
            case False
            with removed have "unlinkSync d (dir @ [f]) = Inr d'" by simp
            then show ?thesis by (rule unlinkSync_other) (simp add: ne [symmetric])
          qed
          moreover from Inr False remove removed
          have "cleanCache_loop now dir (f # files) d n = cleanCache_loop now dir files d' (n + 1)"
            by (simp add: p)
          ultimately show ?thesis by (simp add: IH)
        qed
      qed
    qed
  qed
qed

lemma readdirSync_valid: "readdirSync d p = Inr files \<Longrightarrow> list_all valid_name files"
  by (auto simp: readdirSync_def list_all_iff split: option.splits node.splits)

lemma js_startsWith_append: "js_startsWith (p @ t) p"
  by (induction p) auto

lemma token_name_ends: "js_endsWith (user @ js ''.token'') (js ''.token'')"
  by (simp add: js_endsWith_def js_startsWith_append)

lemma TOKENS_DIR_cleanCache: "TOKENS_DIR (state_of (cleanCache now s)) = TOKENS_DIR s"
  by (simp add: cleanCache_def split: sum.splits outcome.splits)

text \<open>
  C9. Whatever the time of the sweep and the state of the file system, an entry of the
  token directory whose name ends with \<open>.token\<close> is the same after \<open>cleanCache\<close> as
  before it, whether the sweep returns or stops at a failing \<open>readdirSync\<close> or
  \<open>statSync\<close>: only entries with other names are removed. So the record of an account
  whose name has no path separator, which is such an entry, is the same after the sweep.
\<close>

theorem cleanCache_keeps_token_files:
  assumes "js_endsWith name (js ''.token'')"
  shows "map_of (disk (state_of (cleanCache now s))) (TOKENS_DIR s @ [name]) =
           map_of (disk s) (TOKENS_DIR s @ [name]) \<and>
         (0x2F \<notin> set user \<longrightarrow>
            token_entry (state_of (cleanCache now s)) user = token_entry s user)"
proof -
  have kept: "map_of (disk (state_of (cleanCache now s))) (TOKENS_DIR s @ [n]) =
      map_of (disk s) (TOKENS_DIR s @ [n])" if n: "js_endsWith n (js ''.token'')" for n
  proof (cases "existsSync (disk s) (TOKENS_DIR s)")
    case False
    then show ?thesis by (simp add: cleanCache_def)
  next
    case True
    show ?thesis
    proof (cases "readdirSync (disk s) (TOKENS_DIR s)")
      case (Inl e)
      with True show ?thesis by (simp add: cleanCache_def)
    next
      case (Inr files)
      from True Inr have
        "disk (state_of (cleanCache now s)) =
           state_of (cleanCache_loop now (TOKENS_DIR s) files (disk s) 0)"
        by (simp add: cleanCache_def split: outcome.splits)
      with cleanCache_loop_token_entries [OF n readdirSync_valid [OF Inr]]
      show ?thesis by simp
    qed
  qed
  have "token_entry (state_of (cleanCache now s)) user = token_entry s user"
    if "0x2F \<notin> set user"
    using kept [OF token_name_ends [of user]] that
    by (simp add: token_entry_def TOKENS_DIR_cleanCache tokenPath_plain)
  with kept [OF assms] show ?thesis by simp
qed

lemma sweep_example_listing:
  "readdirSync example_disk [js ''app'', js ''data'', js ''tokens''] =
     Inr [js ''alice.token'', js ''sentry.alice.bin'', js ''notes.txt'', js ''old.token.bak'']"
  by (simp add: readdirSync_def example_disk_def valid_name_def js_def)

lemma sweep_example_result:
  "disk (state_of (cleanCache 1700000000001 sweep_example)) =
     [([], Directory 0),
      ([js ''app''], Directory 0),
      ([js ''app'', js ''data''], Directory 0),
      ([js ''app'', js ''data'', js ''tokens''], Directory 0),
      ([js ''app'', js ''data'', js ''tokens'', js ''alice.token''], File (js ''AAAA'') 0),
      ([js ''app'', js ''data'', js ''tokens'', js ''notes.txt''], File [] 1700000000000)]"
proof -
  have v: "valid_name (js ''alice.token'')" "valid_name (js ''sentry.alice.bin'')"
    "valid_name (js ''notes.txt'')" "valid_name (js ''old.token.bak'')"
    by (simp_all add: valid_name_def js_def)
  have e: "existsSync example_disk [js ''app'', js ''data'', js ''tokens'']"
    by (simp add: existsSync_def example_disk_def)
  have t: "js_endsWith (js ''alice.token'') (js ''.token'')"
    "\<not> js_endsWith (js ''sentry.alice.bin'') (js ''.token'')"
    "\<not> js_endsWith (js ''notes.txt'') (js ''.token'')"
    "\<not> js_endsWith (js ''old.token.bak'') (js ''.token'')"
    "isCacheFile (js ''sentry.alice.bin'')"
    "\<not> isCacheFile (js ''notes.txt'')" "\<not> isCacheFile (js ''old.token.bak'')"
    by (simp_all add: js_endsWith_def isCacheFile_def js_def)
  let ?T = "[js ''app'', js ''data'', js ''tokens'']"
  have s1: "statSync example_disk (?T @ [js ''alice.token'']) = Inr (File (js ''AAAA'') 0)"
    by (simp add: statSync_def example_disk_def js_def)
  have s2: "statSync example_disk (?T @ [js ''sentry.alice.bin'']) = Inr (File [] 1700000000000)"
    by (simp add: statSync_def example_disk_def js_def)
  let ?d2 = "[([], Directory 0),
      ([js ''app''], Directory 0),
      ([js ''app'', js ''data''], Directory 0),
      ([js ''app'', js ''data'', js ''tokens''], Directory 0),
      ([js ''app'', js ''data'', js ''tokens'', js ''alice.token''], File (js ''AAAA'') 0),
      ([js ''app'', js ''data'', js ''tokens'', js ''notes.txt''], File [] 1700000000000),
      ([js ''app'', js ''data'', js ''tokens'', js ''old.token.bak''], Directory 0)]"
  have u2: "unlinkSync example_disk (?T @ [js ''sentry.alice.bin'']) = Inr ?d2"
    by (simp add: unlinkSync_def example_disk_def AList.delete_eq js_def)
  have s3: "statSync ?d2 (?T @ [js ''notes.txt'']) = Inr (File [] 1700000000000)"
    by (simp add: statSync_def js_def)
  have s4: "statSync ?d2 (?T @ [js ''old.token.bak'']) = Inr (Directory 0)"
    by (simp add: statSync_def js_def)
  let ?d4 = "[([], Directory 0),
      ([js ''app''], Directory 0),
      ([js ''app'', js ''data''], Directory 0),
      ([js ''app'', js ''data'', js ''tokens''], Directory 0),
      ([js ''app'', js ''data'', js ''tokens'', js ''alice.token''], File (js ''AAAA'') 0),
      ([js ''app'', js ''data'', js ''tokens'', js ''notes.txt''], File [] 1700000000000)]"
  have r4: "rmSync ?d2 (?T @ [js ''old.token.bak'']) = Inr ?d4"
    by (simp add: rmSync_def js_def)
  have "cleanCache_loop 1700000000001 ?T
      [js ''alice.token'', js ''sentry.alice.bin'', js ''notes.txt'', js ''old.token.bak'']
      example_disk 0 = Return 2 ?d4"
    by (simp add: path_join_name v t s1 s2 u2 s3 s4 r4 isOld_def del: append.simps)
  then show ?thesis
    by (simp add: cleanCache_def example_disk_sweep example_TOKENS_DIR e sweep_example_listing)
qed

theorem cleanCache_keeps_token_files_witness:
  "js_endsWith (js ''alice.token'') (js ''.token'') \<and> 0x2F \<notin> set (js ''alice'') \<and>
   map_of (disk (state_of (cleanCache 1700000000001 sweep_example)))
     (TOKENS_DIR sweep_example @ [js ''alice.token'']) =
     Some (File (js ''AAAA'') 0) \<and>
   token_entry (state_of (cleanCache 1700000000001 sweep_example)) (js ''alice'') =
     Some (File (js ''AAAA'') 0)"
proof -
  have t: "js_endsWith (js ''alice.token'') (js ''.token'')"
    by (simp add: js_endsWith_def js_def)
  have p: "0x2F \<notin> set (js ''alice'')" by (simp add: js_def)
  have "map_of (disk sweep_example) (TOKENS_DIR sweep_example @ [js ''alice.token'']) =
      Some (File (js ''AAAA'') 0)"
    by (simp add: example_disk_sweep example_TOKENS_DIR example_disk_def js_def)
  with cleanCache_keeps_token_files [OF t, of 1700000000001 sweep_example "js ''alice''"] t p
  show ?thesis by (simp add: sweep_example_entries)
qed

section \<open>Loading the account collection\<close>

text \<open>
  C10. \<open>loadAccounts\<close> always returns, and never changes the stored file: without a
  data file it returns the empty list, and where reading the file (a directory),
  decrypting it or parsing the decrypted text fails it returns the empty list too.
\<close>

theorem loadAccounts_never_throws:
  "(\<exists>accounts. loadAccounts L st = Return accounts st) \<and>
   (dataFile st = None \<longrightarrow> loadAccounts L st = Return (JArr []) st) \<and>
   (\<forall>m. dataFile st = Some (Directory m) \<longrightarrow> loadAccounts L st = Return (JArr []) st) \<and>
   (\<forall>encrypted m. dataFile st = Some (File encrypted m) \<longrightarrow>
      isl (decrypt L encrypted (storageKey st)) \<longrightarrow> loadAccounts L st = Return (JArr []) st) \<and>
   (\<forall>encrypted m decrypted. dataFile st = Some (File encrypted m) \<longrightarrow>
      decrypt L encrypted (storageKey st) = Inr decrypted \<longrightarrow> JSON_parse L decrypted = None \<longrightarrow>
      loadAccounts L st = Return (JArr []) st)"
  by (auto simp: loadAccounts_def readDataFile_def isl_def
      split: option.splits sum.splits node.splits)

theorem loadAccounts_never_throws_witness:
  "dataFile stored_example = Some (File (js ''AAAA'') 0) \<and>
   isl (decrypt example_lib (js ''AAAA'') (storageKey stored_example)) \<and>
   loadAccounts example_lib stored_example = Return (JArr []) stored_example"
proof -
  have f: "dataFile stored_example = Some (File (js ''AAAA'') 0)"
    by (simp add: stored_example_def)
  have d: "isl (decrypt example_lib (js ''AAAA'') (storageKey stored_example))"
    by (simp add: stored_example_def example_decrypt_fails)
  from loadAccounts_never_throws [of example_lib stored_example] f d
  show ?thesis by blast
qed


end
